theory Spec2Isabelle
  imports Main "HOL-Library.Sublist"
begin

section \<open>Text\<close>

text \<open>
  Texts (arguments, environment variables, file contents) are byte strings. The shell
  tools are modelled in the C locale, and files are taken to hold valid UTF-8, so
  that a literal replacement on bytes is the replacement Python performs on code points.
\<close>

text \<open>\<^verbatim>\<open>tr '[:upper:]' '[:lower:]'\<close> on one byte.\<close>

definition lower_char :: "char \<Rightarrow> char" where
  "lower_char c =
     (let n = (of_char c :: nat) in if 65 \<le> n \<and> n \<le> 90 then char_of (n + 32) else c)"

definition tr_lower :: "string \<Rightarrow> string" where
  "tr_lower s = map lower_char s"

text \<open>
  The builtin \<^verbatim>\<open>echo "$X"\<close> prints its argument, unless the argument is itself an
  option word (a dash followed by one or more of n, e, E), which prints no text.
\<close>

definition echo_option :: "string \<Rightarrow> bool" where
  "echo_option s =
     (case s of [] \<Rightarrow> False
      | c # r \<Rightarrow> c = CHR ''-'' \<and> r \<noteq> [] \<and> list_all (\<lambda>x. x \<in> set ''neE'') r)"

definition echo :: "string \<Rightarrow> string" where
  "echo s = (if echo_option s then [] else s)"

text \<open>
  A command substitution \<^verbatim>\<open>$(...)\<close> drops the newlines at the end of the output.
  Below, the output of a pipeline is written without the newline that \<^verbatim>\<open>echo\<close>
  appends, which the substitution drops again.
\<close>

definition newline :: char where
  "newline = CHR 0x0A"

definition command_subst :: "string \<Rightarrow> string" where
  "command_subst s = rev (dropWhile (\<lambda>c. c = newline) (rev s))"

text \<open>The lines of a text, for the tools that work line by line.\<close>

fun split_lines :: "string \<Rightarrow> string list" where
  "split_lines [] = [[]]"
| "split_lines (c # cs) =
     (if c = newline then [] # split_lines cs
      else (case split_lines cs of [] \<Rightarrow> [[c]] | l # ls \<Rightarrow> (c # l) # ls))"

fun join_lines :: "string list \<Rightarrow> string" where
  "join_lines [] = []"
| "join_lines [l] = l"
| "join_lines (l # ls) = l @ newline # join_lines ls"

text \<open>
  Python's \<^verbatim>\<open>s.replace(old, new)\<close>: the occurrences of \<open>old\<close> are found from
  the left and do not overlap; an empty \<open>old\<close> matches before every character and at
  the end. \<^verbatim>\<open>sed s/old/new/g\<close> with a literal \<open>old\<close> and a literal \<open>new\<close> does
  the same (no occurrence of a one-line pattern spans two lines).
\<close>

fun str_replace :: "string \<Rightarrow> string \<Rightarrow> string \<Rightarrow> string" where
  "str_replace old new [] = (if old = [] then new else [])"
| "str_replace old new (c # cs) =
     (if old = [] then new @ c # str_replace old new cs
      else if prefix old (c # cs)
        then new @ str_replace old new (drop (length old) (c # cs))
      else c # str_replace old new cs)"

section \<open>Palette Generator\<close>

record palette =
  BG0 :: string
  BG1 :: string
  BG2 :: string
  ACCENT :: string
  ACCENT_HOVER :: string
  RAD1 :: string
  RAD2 :: string
  RAD3 :: string

definition wine_palette :: palette where
  "wine_palette =
     \<lparr>BG0 = ''#12070c'', BG1 = ''#2a0d16'', BG2 = ''#4f1424'',
      ACCENT = ''#b63a5a'', ACCENT_HOVER = ''#962f49'',
      RAD1 = ''rgba(144,22,56,.45)'', RAD2 = ''rgba(188,88,116,.28)'',
      RAD3 = ''rgba(92,16,37,.42)''\<rparr>"

definition default_palette :: palette where
  "default_palette =
     \<lparr>BG0 = ''#0a0514'', BG1 = ''#1a0a2e'', BG2 = ''#2d1b4e'',
      ACCENT = ''#8b5cf6'', ACCENT_HOVER = ''#7c3aed'',
      RAD1 = ''rgba(139, 92, 246, 0.40)'', RAD2 = ''rgba(168, 85, 247, 0.30)'',
      RAD3 = ''rgba(217, 70, 239, 0.30)''\<rparr>"

text \<open>\<^verbatim>\<open>TOPIC_LC=$(echo "$TOPIC" | tr '[:upper:]' '[:lower:]')\<close>\<close>

definition TOPIC_LC :: "string \<Rightarrow> string" where
  "TOPIC_LC topic = command_subst (tr_lower (echo topic))"

text \<open>\<^verbatim>\<open>echo "$TOPIC_LC" | grep -Eq 'wine|vino|vin'\<close>: some line holds one of the
  three words. None of them holds a newline, so this is containment in the whole text.\<close>

definition grep_wine :: "string \<Rightarrow> bool" where
  "grep_wine t \<longleftrightarrow> sublist ''wine'' t \<or> sublist ''vino'' t \<or> sublist ''vin'' t"

definition topic_palette :: "string \<Rightarrow> palette" where
  "topic_palette topic =
     (if grep_wine (echo (TOPIC_LC topic)) then wine_palette else default_palette)"

section \<open>Animation speed\<close>

text \<open>
  The older \<^verbatim>\<open>init-blog.sh\<close> parses the speed as an integer and clamps it when it
  writes \<^verbatim>\<open>theme.config.js\<close>: \<^verbatim>\<open>max(8, min(60, speed))\<close>.
\<close>

definition animationSpeedSec :: "int \<Rightarrow> int" where
  "animationSpeedSec speed = max 8 (min 60 speed)"

section \<open>Command line of \<^verbatim>\<open>init-blog.sh\<close>\<close>

record opts =
  DOMAIN :: string
  BRAND :: string
  TOPIC :: string
  SPEED :: string
  SUBSCRIBE_EMAIL :: string

datatype error =
    UnknownArg string
  | ShiftError
  | UsageError
  | SystemExit string
  | UnicodeDecodeError string

definition init_opts :: opts where
  "init_opts = \<lparr>DOMAIN = [], BRAND = [], TOPIC = [], SPEED = ''26'', SUBSCRIBE_EMAIL = []\<rparr>"

text \<open>
  The \<^verbatim>\<open>while\<close> loop over the arguments. A flag takes the next word as its value
  (\<^verbatim>\<open>${2:-}\<close>); a flag that is the last word makes \<^verbatim>\<open>shift 2\<close> fail, which ends
  the script under \<^verbatim>\<open>set -e\<close>.
\<close>

fun parse_args :: "string list \<Rightarrow> opts \<Rightarrow> error + opts" where
  "parse_args [] x = Inr x"
| "parse_args [a] x =
     (if a = ''--domain'' \<or> a = ''--brand'' \<or> a = ''--topic'' \<or> a = ''--speed''
         \<or> a = ''--subscribe-email''
      then Inl ShiftError else Inl (UnknownArg a))"
| "parse_args (a # v # rest) x =
     (if a = ''--domain'' then parse_args rest (x\<lparr>DOMAIN := v\<rparr>)
      else if a = ''--brand'' then parse_args rest (x\<lparr>BRAND := v\<rparr>)
      else if a = ''--topic'' then parse_args rest (x\<lparr>TOPIC := v\<rparr>)
      else if a = ''--speed'' then parse_args rest (x\<lparr>SPEED := v\<rparr>)
      else if a = ''--subscribe-email'' then parse_args rest (x\<lparr>SUBSCRIBE_EMAIL := v\<rparr>)
      else Inl (UnknownArg a))"

text \<open>The usage check, then the default of the subscribe email.\<close>

definition read_opts :: "string list \<Rightarrow> error + opts" where
  "read_opts args =
     (case parse_args args init_opts of
        Inl e \<Rightarrow> Inl e
      | Inr x \<Rightarrow>
          if DOMAIN x = [] \<or> BRAND x = [] \<or> TOPIC x = [] then Inl UsageError
          else if SUBSCRIBE_EMAIL x = [] then Inr (x\<lparr>SUBSCRIBE_EMAIL := ''info@'' @ DOMAIN x\<rparr>)
          else Inr x)"

subsection \<open>Slug and asset names\<close>

text \<open>
  \<^verbatim>\<open>sed 's/[^a-z0-9]/-/g; s/--*/-/g; s/^-//; s/-$//'\<close>, applied to each line.
\<close>

definition slug_char :: "char \<Rightarrow> char" where
  "slug_char c =
     (if c \<in> set ''abcdefghijklmnopqrstuvwxyz0123456789'' then c else CHR ''-'')"

fun squeeze_dashes :: "string \<Rightarrow> string" where
  "squeeze_dashes (a # b # cs) =
     (if a = CHR ''-'' \<and> b = CHR ''-'' then squeeze_dashes (b # cs)
      else a # squeeze_dashes (b # cs))"
| "squeeze_dashes cs = cs"

definition strip_leading_dash :: "string \<Rightarrow> string" where
  "strip_leading_dash s = (case s of [] \<Rightarrow> [] | c # r \<Rightarrow> if c = CHR ''-'' then r else s)"

definition strip_trailing_dash :: "string \<Rightarrow> string" where
  "strip_trailing_dash s = (if s \<noteq> [] \<and> last s = CHR ''-'' then butlast s else s)"

definition slug_line :: "string \<Rightarrow> string" where
  "slug_line l = strip_trailing_dash (strip_leading_dash (squeeze_dashes (map slug_char l)))"

definition SLUG :: "string \<Rightarrow> string" where
  "SLUG brand =
     (let s = command_subst (join_lines (map slug_line (split_lines (tr_lower (echo brand)))))
      in if s = [] then ''site'' else s)"

definition LOGO_FILE :: "string \<Rightarrow> string" where
  "LOGO_FILE brand = ''logo-'' @ SLUG brand @ ''.png''"

definition HERO_FILE :: "string \<Rightarrow> string" where
  "HERO_FILE brand = ''hero-'' @ SLUG brand @ ''.png''"

subsection \<open>The exported environment\<close>

record env =
  INIT_DOMAIN :: string
  INIT_BRAND :: string
  INIT_TOPIC :: string
  INIT_SPEED :: string
  INIT_SUBSCRIBE_EMAIL :: string
  INIT_LOGO_FILE :: string
  INIT_HERO_FILE :: string
  INIT_BG0 :: string
  INIT_BG1 :: string
  INIT_BG2 :: string
  INIT_ACCENT :: string
  INIT_ACCENT_HOVER :: string
  INIT_RAD1 :: string
  INIT_RAD2 :: string
  INIT_RAD3 :: string

definition export_env :: "opts \<Rightarrow> env" where
  "export_env x =
     (let pal = topic_palette (TOPIC x) in
      \<lparr>INIT_DOMAIN = DOMAIN x, INIT_BRAND = BRAND x, INIT_TOPIC = TOPIC x,
       INIT_SPEED = SPEED x, INIT_SUBSCRIBE_EMAIL = SUBSCRIBE_EMAIL x,
       INIT_LOGO_FILE = LOGO_FILE (BRAND x), INIT_HERO_FILE = HERO_FILE (BRAND x),
       INIT_BG0 = BG0 pal, INIT_BG1 = BG1 pal, INIT_BG2 = BG2 pal,
       INIT_ACCENT = ACCENT pal, INIT_ACCENT_HOVER = ACCENT_HOVER pal,
       INIT_RAD1 = RAD1 pal, INIT_RAD2 = RAD2 pal, INIT_RAD3 = RAD3 pal\<rparr>)"

section \<open>The site directory and the outside world\<close>

text \<open>
  The site directory is a map from paths (relative to the project root) to the bytes of
  the regular files; directories are not modelled (\<^verbatim>\<open>mkdir(parents=True, exist_ok=True)\<close>
  makes the parents a write needs), and a write to the directory is taken to succeed. No
  path holds a newline (\<^verbatim>\<open>bootstrap-template.sh\<close> reads its list of files line by
  line). The standard output is the list of the lines printed.
\<close>

type_synonym fs = "string \<rightharpoonup> string"

record state =
  files :: fs
  stdout :: "string list"

text \<open>
  A run completes, or ends early with an error and the state it has reached. For some
  arguments what the scripts do is not modelled (a \<^verbatim>\<open>sed\<close> script that the
  interpolated value changes, a loop that dies at a file in the order in which the file
  system lists them); the outcome is then \<open>OutsideModel\<close>, about which nothing is
  stated.
\<close>

datatype outcome = Completed state | Aborted error state | OutsideModel

definition write_file :: "string \<Rightarrow> string \<Rightarrow> state \<Rightarrow> state" where
  "write_file p c st = st\<lparr>files := (files st)(p \<mapsto> c)\<rparr>"

definition print :: "string \<Rightarrow> state \<Rightarrow> state" where
  "print l st = st\<lparr>stdout := stdout st @ [l]\<rparr>"

text \<open>
  What the image service answers to one request, as far as \<^verbatim>\<open>gen\<close> reads it. The
  texts are the ones the Python library puts into the exception it raises: the reason
  of a \<^verbatim>\<open>URLError\<close>, the reason phrase of an error status, the message of the JSON or
  UTF-8 decoder, of an error while the body is read, of \<^verbatim>\<open>base64\<close>, or of the
  \<^verbatim>\<open>TypeError\<close> or \<^verbatim>\<open>AttributeError\<close> that a body of another shape leads to. A
  part of the first candidate has no (or empty) inline data, or data that decodes to
  the given bytes, or data that \<^verbatim>\<open>b64decode\<close> refuses.
\<close>

datatype part = NoImage | Image string | BadImage string

datatype response =
    NetworkFailure string
  | HttpStatus nat string
  | ReadFailure string
  | NotJson string
  | NoCandidates
  | Candidates "part list list"
  | OtherShape string

datatype exn =
    URLError string
  | HTTPError nat string
  | OSError string
  | ValueError string
  | IndexError
  | ShapeError string
  | Base64Error string
  | RuntimeError string

text \<open>ImageMagick's \<^verbatim>\<open>convert\<close>, when installed: the colour of the top-left pixel as
  printed by the first call, and the image the second call leaves (\<open>None\<close> when it
  fails).\<close>

record imagemagick =
  top_left_hex :: "string \<Rightarrow> string"
  make_transparent :: "string \<Rightarrow> string \<Rightarrow> string option"

text \<open>
  \<open>palette_rewrite\<close> stands for the regular-expression rewriting that
  \<^verbatim>\<open>patch_blog_template_palette\<close> applies to the text of \<^verbatim>\<open>blog/template.html\<close>
  (a function of the environment and the text); the development does not look into it.
\<close>

text \<open>
  \<open>rg\<close> is ripgrep, when installed: whether it passes over the file at a path with a
  content (a hidden or ignored file, a binary file).
\<close>

record world =
  GEMINI_API_KEY :: "string option"
  GOOGLE_API_KEY :: "string option"
  logo_response :: response
  hero_response :: response
  today :: string
  rg :: "(string \<Rightarrow> string \<Rightarrow> bool) option"
  convert :: "imagemagick option"
  palette_rewrite :: "env \<Rightarrow> string \<Rightarrow> string"

section \<open>Asset Provisioner\<close>

text \<open>
  \<^verbatim>\<open>str.strip()\<close> removes the characters for which \<^verbatim>\<open>isspace()\<close> holds from both
  ends. These are their UTF-8 encodings, of one, two or three bytes; no byte of an
  encoding of two or three bytes is a byte of another character's end or beginning, so the
  bytes can be removed as they are found.
\<close>

definition py_whitespace :: "string list" where
  "py_whitespace =
     [[CHR 0x09], [CHR 0x0A], [CHR 0x0B], [CHR 0x0C], [CHR 0x0D],
      [CHR 0x1C], [CHR 0x1D], [CHR 0x1E], [CHR 0x1F], [CHR 0x20],
      [CHR 0xC2, CHR 0x85], [CHR 0xC2, CHR 0xA0], [CHR 0xE1, CHR 0x9A, CHR 0x80],
      [CHR 0xE2, CHR 0x80, CHR 0x80], [CHR 0xE2, CHR 0x80, CHR 0x81],
      [CHR 0xE2, CHR 0x80, CHR 0x82], [CHR 0xE2, CHR 0x80, CHR 0x83],
      [CHR 0xE2, CHR 0x80, CHR 0x84], [CHR 0xE2, CHR 0x80, CHR 0x85],
      [CHR 0xE2, CHR 0x80, CHR 0x86], [CHR 0xE2, CHR 0x80, CHR 0x87],
      [CHR 0xE2, CHR 0x80, CHR 0x88], [CHR 0xE2, CHR 0x80, CHR 0x89],
      [CHR 0xE2, CHR 0x80, CHR 0x8A], [CHR 0xE2, CHR 0x80, CHR 0xA8],
      [CHR 0xE2, CHR 0x80, CHR 0xA9], [CHR 0xE2, CHR 0x80, CHR 0xAF],
      [CHR 0xE2, CHR 0x81, CHR 0x9F], [CHR 0xE3, CHR 0x80, CHR 0x80]]"

fun strip_front :: "string list \<Rightarrow> string \<Rightarrow> string" where
  "strip_front ws [] = []"
| "strip_front ws (c # cs) =
     (if [c] \<in> set ws then strip_front ws cs
      else if take 2 (c # cs) \<in> set ws then strip_front ws (drop 1 cs)
      else if take 3 (c # cs) \<in> set ws then strip_front ws (drop 2 cs)
      else c # cs)"

definition py_strip :: "string \<Rightarrow> string" where
  "py_strip s =
     rev (strip_front (map rev py_whitespace) (rev (strip_front py_whitespace s)))"

text \<open>\<^verbatim>\<open>(os.environ.get('GEMINI_API_KEY') or os.environ.get('GOOGLE_API_KEY') or '').strip()\<close>\<close>

definition api_key :: "world \<Rightarrow> string" where
  "api_key w =
     py_strip
       (case GEMINI_API_KEY w of
          Some k \<Rightarrow> if k \<noteq> [] then k else (case GOOGLE_API_KEY w of Some g \<Rightarrow> g | None \<Rightarrow> [])
        | None \<Rightarrow> (case GOOGLE_API_KEY w of Some g \<Rightarrow> g | None \<Rightarrow> []))"

text \<open>The loop of \<^verbatim>\<open>gen\<close> over the parts: the first part with inline data is decoded.\<close>

fun first_image :: "part list \<Rightarrow> exn + string" where
  "first_image [] = Inl (RuntimeError ''No image in Gemini response'')"
| "first_image (NoImage # ps) = first_image ps"
| "first_image (BadImage msg # ps) = Inl (Base64Error msg)"
| "first_image (Image b # ps) = Inr b"

definition gen :: "response \<Rightarrow> exn + string" where
  "gen r =
     (case r of
        NetworkFailure reason \<Rightarrow> Inl (URLError reason)
      | HttpStatus n reason \<Rightarrow> Inl (HTTPError n reason)
      | ReadFailure msg \<Rightarrow> Inl (OSError msg)
      | NotJson msg \<Rightarrow> Inl (ValueError msg)
      | OtherShape msg \<Rightarrow> Inl (ShapeError msg)
      | NoCandidates \<Rightarrow> first_image []
      | Candidates [] \<Rightarrow> Inl IndexError
      | Candidates (ps # _) \<Rightarrow> first_image ps)"

text \<open>The decimal digits of a number, as \<^verbatim>\<open>%s\<close> prints an integer.\<close>

function decimal :: "nat \<Rightarrow> string" where
  "decimal n =
     (if n < 10 then [char_of (48 + n)]
      else decimal (n div 10) @ [char_of (48 + n mod 10)])"
  by pat_completeness auto
termination
  by (relation "measure id") auto

declare decimal.simps [simp del]

text \<open>\<^verbatim>\<open>str(e)\<close>, which \<^verbatim>\<open>print\<close> writes after the warning.\<close>

definition show_exn :: "exn \<Rightarrow> string" where
  "show_exn e =
     (case e of
        URLError reason \<Rightarrow> ''<urlopen error '' @ reason @ ''>''
      | HTTPError n reason \<Rightarrow> ''HTTP Error '' @ decimal n @ '': '' @ reason
      | OSError msg \<Rightarrow> msg
      | ValueError msg \<Rightarrow> msg
      | IndexError \<Rightarrow> ''list index out of range''
      | ShapeError msg \<Rightarrow> msg
      | Base64Error msg \<Rightarrow> msg
      | RuntimeError msg \<Rightarrow> msg)"

text \<open>
  One \<^verbatim>\<open>try\<close> block: the body raises where \<^verbatim>\<open>gen\<close> raises, else writes the file
  and prints; the handler \<^verbatim>\<open>except Exception\<close> prints the warning.
\<close>

definition try_generate :: "string \<Rightarrow> string \<Rightarrow> response \<Rightarrow> state \<Rightarrow> exn + state" where
  "try_generate what file r st =
     (case gen r of
        Inl e \<Rightarrow> Inl e
      | Inr img \<Rightarrow> Inr (print (''[ok] '' @ what @ '' generated'') (write_file file img st)))"

definition generate :: "string \<Rightarrow> string \<Rightarrow> response \<Rightarrow> state \<Rightarrow> state" where
  "generate what file r st =
     (case try_generate what file r st of
        Inl e \<Rightarrow> print (''[warn] '' @ what @ '' generation failed: '' @ show_exn e) st
      | Inr st' \<Rightarrow> st')"

definition generate_assets :: "world \<Rightarrow> env \<Rightarrow> state \<Rightarrow> state" where
  "generate_assets w e st =
     (if api_key w \<noteq> []
      then generate ''hero'' (INIT_HERO_FILE e) (hero_response w)
             (generate ''logo'' (INIT_LOGO_FILE e) (logo_response w) st)
      else st)"

text \<open>\<^verbatim>\<open>if not (root / a).exists() and (root / b).exists(): a.write_bytes(b.read_bytes())\<close>\<close>

definition copy_if_missing :: "string \<Rightarrow> string \<Rightarrow> state \<Rightarrow> state" where
  "copy_if_missing a b st =
     (case files st a of
        Some _ \<Rightarrow> st
      | None \<Rightarrow> (case files st b of None \<Rightarrow> st | Some c \<Rightarrow> write_file a c st))"

text \<open>\<^verbatim>\<open>if (root / a).exists(): (root / b).write_bytes(a.read_bytes())\<close>\<close>

definition copy_if_exists :: "string \<Rightarrow> string \<Rightarrow> state \<Rightarrow> state" where
  "copy_if_exists a b st =
     (case files st a of None \<Rightarrow> st | Some c \<Rightarrow> write_file b c st)"

definition fallback_assets :: "env \<Rightarrow> state \<Rightarrow> state" where
  "fallback_assets e st =
     copy_if_missing (INIT_HERO_FILE e) ''hero_ai.jpg''
       (copy_if_missing (INIT_LOGO_FILE e) ''logo.png'' st)"

definition canonical_assets :: "env \<Rightarrow> state \<Rightarrow> state" where
  "canonical_assets e st =
     copy_if_exists (INIT_HERO_FILE e) ''hero_ai.jpg''
       (copy_if_exists (INIT_LOGO_FILE e) ''logo.png'' st)"

definition provision_assets :: "world \<Rightarrow> env \<Rightarrow> state \<Rightarrow> state" where
  "provision_assets w e st = canonical_assets e (fallback_assets e (generate_assets w e st))"

section \<open>Page Materializer\<close>

text \<open>
  \<^verbatim>\<open>read_text\<close> decodes the bytes of the file in the encoding of the locale, which is
  taken to be UTF-8. With \<^verbatim>\<open>errors='ignore'\<close>
  the decoder drops what it cannot decode: a byte that cannot begin a character; the
  bytes of a character that was begun, up to the byte that cannot continue it; or the
  rest of the file when it ends within a character. \<open>lead\<close> gives, for a byte that
  begins a character of several bytes, the number of bytes that follow and the range of the
  first of them.
\<close>

definition byte :: "char \<Rightarrow> nat" where
  "byte c = of_char c"

definition lead :: "char \<Rightarrow> (nat \<times> nat \<times> nat) option" where
  "lead c =
     (let n = byte c in
      if 194 \<le> n \<and> n \<le> 223 then Some (1, 128, 191)
      else if n = 224 then Some (2, 160, 191)
      else if (225 \<le> n \<and> n \<le> 236) \<or> n = 238 \<or> n = 239 then Some (2, 128, 191)
      else if n = 237 then Some (2, 128, 159)
      else if n = 240 then Some (3, 144, 191)
      else if 241 \<le> n \<and> n \<le> 243 then Some (3, 128, 191)
      else if n = 244 then Some (3, 128, 143)
      else None)"

text \<open>The bytes after a lead byte: all there, the text ends before the last of them, or
  after \<open>j\<close> good bytes comes one that is not a continuation.\<close>

datatype scan = Whole | Short | Broken nat

fun tail_scan :: "nat \<Rightarrow> nat \<Rightarrow> nat \<Rightarrow> string \<Rightarrow> scan" where
  "tail_scan 0 lo hi s = Whole"
| "tail_scan (Suc k) lo hi [] = Short"
| "tail_scan (Suc k) lo hi (b # s) =
     (if lo \<le> byte b \<and> byte b \<le> hi
      then (case tail_scan k 128 191 s of Broken j \<Rightarrow> Broken (Suc j) | r \<Rightarrow> r)
      else Broken 0)"

fun utf8_ignore :: "string \<Rightarrow> string" where
  "utf8_ignore [] = []"
| "utf8_ignore (c # s) =
     (if byte c < 128 then c # utf8_ignore s
      else (case lead c of
              None \<Rightarrow> utf8_ignore s
            | Some (k, lo, hi) \<Rightarrow>
                (case tail_scan k lo hi s of
                   Whole \<Rightarrow> c # take k s @ utf8_ignore (drop k s)
                 | Short \<Rightarrow> []
                 | Broken j \<Rightarrow> utf8_ignore (drop j s))))"

text \<open>Without \<^verbatim>\<open>errors='ignore'\<close> the decoder raises \<^verbatim>\<open>UnicodeDecodeError\<close> where it
  would drop a byte.\<close>

definition utf8 :: "string \<Rightarrow> bool" where
  "utf8 s \<longleftrightarrow> utf8_ignore s = s"

text \<open>
  In text mode every line ending (\<^verbatim>\<open>\r\n\<close> or \<^verbatim>\<open>\r\<close>) is read as \<^verbatim>\<open>\n\<close>;
  \<^verbatim>\<open>write_text\<close> writes the text as it is.
\<close>

fun universal_newlines :: "string \<Rightarrow> string" where
  "universal_newlines [] = []"
| "universal_newlines [c] = (if c = CHR 0x0D then [newline] else [c])"
| "universal_newlines (c # d # cs) =
     (if c = CHR 0x0D \<and> d = newline then newline # universal_newlines cs
      else if c = CHR 0x0D then newline # universal_newlines (d # cs)
      else c # universal_newlines (d # cs))"

definition home_shell :: string where
  "home_shell = ''universal_blog_shell.html''"

definition blog_shell :: string where
  "blog_shell = ''universal_blog_index.html''"

definition blog_pages :: "string list" where
  "blog_pages =
     [''blog/index.html'', ''ru/blog/index.html'', ''es/blog/index.html'',
      ''de/blog/index.html'', ''fr/blog/index.html'']"

text \<open>
  The home page and the blog listing pages. The loop reads the blog shell again on
  every round; no round writes it, so its text is read once here.
\<close>

definition materialize :: "string \<Rightarrow> string \<Rightarrow> state \<Rightarrow> state" where
  "materialize home blog st =
     fold (\<lambda>rel. write_file rel (universal_newlines blog)) blog_pages
       (write_file ''index.html'' (universal_newlines home) st)"

text \<open>The dictionary \<^verbatim>\<open>repl\<close>, in its insertion order.\<close>

definition repl :: "env \<Rightarrow> (string \<times> string) list" where
  "repl e =
     [(''__BRAND__'', INIT_BRAND e),
      (''__DOMAIN__'', INIT_DOMAIN e),
      (''__LOGO_FILE__'', INIT_LOGO_FILE e),
      (''__HERO_FILE__'', INIT_HERO_FILE e),
      (''__BG0__'', INIT_BG0 e),
      (''__BG1__'', INIT_BG1 e),
      (''__BG2__'', INIT_BG2 e),
      (''__ACCENT__'', INIT_ACCENT e),
      (''__ACCENT_HOVER__'', INIT_ACCENT_HOVER e),
      (''__RAD1__'', INIT_RAD1 e),
      (''__RAD2__'', INIT_RAD2 e),
      (''__RAD3__'', INIT_RAD3 e),
      (''__ANIM_SPEED__'', INIT_SPEED e),
      (''__HERO_TITLE__'', INIT_BRAND e @ '': practical insights about '' @ INIT_TOPIC e),
      (''__HERO_SUBTITLE__'', ''Actionable guides and frameworks for '' @ INIT_TOPIC e @ ''.''),
      (''__SUBSCRIBE_EMAIL__'', INIT_SUBSCRIBE_EMAIL e)]"

text \<open>\<^verbatim>\<open>for k,v in repl.items(): s = s.replace(k, v)\<close>\<close>

definition replace_all :: "(string \<times> string) list \<Rightarrow> string \<Rightarrow> string" where
  "replace_all kvs s = fold (\<lambda>(k, v). str_replace k v) kvs s"

text \<open>The body of the loop over \<^verbatim>\<open>root.rglob('*.html')\<close>, on the bytes of one file
  (read with \<^verbatim>\<open>errors='ignore'\<close>).\<close>

definition substitute_text :: "env \<Rightarrow> string \<Rightarrow> string" where
  "substitute_text e s =
     str_replace ''myugc.studio'' (INIT_DOMAIN e)
       (str_replace ''web.myugc.studio'' (INIT_DOMAIN e)
          (replace_all (repl e) (universal_newlines (utf8_ignore s))))"

definition is_html :: "string \<Rightarrow> bool" where
  "is_html p \<longleftrightarrow> suffix ''.html'' p"

definition substitute :: "env \<Rightarrow> state \<Rightarrow> state" where
  "substitute e st =
     st\<lparr>files := (\<lambda>p. if is_html p then map_option (substitute_text e) (files st p)
                        else files st p)\<rparr>"

definition page_materializer :: "env \<Rightarrow> string \<Rightarrow> string \<Rightarrow> state \<Rightarrow> state" where
  "page_materializer e home blog st = substitute e (materialize home blog st)"

section \<open>Policy Page Writer\<close>

definition base_css :: "env \<Rightarrow> string" where
  \<open>base_css e =
     ''\<newline>:root{--bg-dark:'' @ INIT_BG0 e
     @ '';--bg-gradient:linear-gradient(135deg,'' @ INIT_BG0 e @ '' 0%,'' @ INIT_BG1 e
     @ '' 50%,'' @ INIT_BG2 e @ '' 100%);--accent:'' @ INIT_ACCENT e
     @ '';--accent-hover:'' @ INIT_ACCENT_HOVER e
     @ '';--glass-bg:rgba(255,255,255,.035);--glass-border:rgba(255,255,255,.12);--text:#f4edf0;--dim:#cfbec5;}\<newline>*{box-sizing:border-box;margin:0;padding:0;font-family:Inter,system-ui,-apple-system,Segoe UI,sans-serif}\<newline>body{background:var(--bg-dark);color:var(--text);overflow-x:hidden;line-height:1.7}\<newline>.fixed-bg{position:fixed;inset:0;z-index:-1;background:var(--bg-gradient)}\<newline>.container{max-width:980px;margin:0 auto;padding:0 24px}\<newline>nav{padding:22px 0;position:sticky;top:0;z-index:20;background:rgba(0,0,0,.0)}\<newline>nav .row{display:flex;align-items:center;justify-content:space-between;gap:16px}\<newline>nav a{color:var(--dim);text-decoration:none;font-weight:700;font-size:14px}\<newline>nav a:hover{color:#fff}\<newline>.logo-img{height:60px;width:auto;object-fit:contain}\<newline>.card{margin:20px auto 42px;background:var(--glass-bg);border:1px solid var(--glass-border);border-radius:22px;padding:26px}\<newline>h1{font-size:34px;line-height:1.1;margin-bottom:10px}\<newline>p{color:var(--dim);margin:10px 0}\<newline>footer{border-top:1px solid var(--glass-border);padding:34px 0;text-align:center;color:var(--dim);font-size:14px;margin-top:28px}\<newline>.btn{display:inline-flex;align-items:center;justify-content:center;padding:12px 18px;border-radius:10px;font-weight:800;text-decoration:none;transition:.2s;background:var(--accent);color:#fff}\<newline>.btn:hover{background:var(--accent-hover)}\<newline>''\<close>

definition page :: "env \<Rightarrow> string \<Rightarrow> string \<Rightarrow> string" where
  \<open>page e title body_html =
     ''<!doctype html>\<newline><html lang="en"><head>\<newline><meta charset="utf-8" />\<newline><meta name="viewport" content="width=device-width, initial-scale=1" />\<newline><title>''
     @ title @ '' | '' @ INIT_BRAND e
     @ ''</title>\<newline><meta name="robots" content="index,follow" />\<newline><link rel="icon" type="image/png" href="/''
     @ ''logo.png''
     @ ''" />\<newline><link href="https://fonts.googleapis.com/css2?family=Inter:wght@300;400;500;600;700;800&display=swap" rel="stylesheet" />\<newline><style>''
     @ base_css e
     @ ''</style>\<newline></head>\<newline><body>\<newline><div class="fixed-bg"></div>\<newline><nav><div class="container row"><a href="/"><img class="logo-img" src="/''
     @ ''logo.png'' @ ''" alt="'' @ INIT_BRAND e
     @ '' logo" /></a><div style="display:flex;gap:16px"><a href="/">Home</a><a href="/blog/">Blog</a></div></div></nav>\<newline><main class="container"><div class="card"><h1>''
     @ title @ ''</h1>'' @ body_html
     @ ''</div></main>\<newline><footer><p>'' @ [CHR 0xC2, CHR 0xA9] @ '' 2026 '' @ INIT_BRAND e
     @ ''. All rights reserved.</p><div style="margin-top:12px"><a href="/policy/terms/">Terms</a> | <a href="/policy/privacy/">Privacy</a> | <a href="/policy/refund/">Refund</a></div></footer>\<newline></body></html>''\<close>

definition privacy_page :: "env \<Rightarrow> string" where
  \<open>privacy_page e =
     page e ''Privacy Policy''
       (''<p>This policy applies to <b>'' @ INIT_DOMAIN e @ ''</b>.</p>''
        @ ''<p>We collect only the information you submit via forms (name, email, message) to respond and improve the site experience. We do not sell personal data.</p>''
        @ ''<p>If you have questions, contact <a class="btn" href="mailto:info@'' @ INIT_DOMAIN e @ ''">info@'' @ INIT_DOMAIN e @ ''</a>.</p>'')\<close>

definition terms_page :: "env \<Rightarrow> string" where
  \<open>terms_page e =
     page e ''Terms of Service''
       (''<p>By using <b>'' @ INIT_DOMAIN e @ ''</b>, you agree to these terms.</p>''
        @ ''<p>Content is provided for informational purposes. We may update the site at any time. Your use is at your own risk.</p>''
        @ ''<p>Contact: <a class="btn" href="mailto:info@'' @ INIT_DOMAIN e @ ''">info@'' @ INIT_DOMAIN e @ ''</a>.</p>'')\<close>

definition refund_page :: "env \<Rightarrow> string" where
  \<open>refund_page e =
     page e ''Refund Policy''
       (''<p>This site is a content blog. Unless you purchased a separate product/service from us, there is nothing to refund.</p>''
        @ ''<p>For billing questions, email <a class="btn" href="mailto:info@'' @ INIT_DOMAIN e @ ''">info@'' @ INIT_DOMAIN e @ ''</a>.</p>'')\<close>

definition pages :: "env \<Rightarrow> (string \<times> string) list" where
  "pages e =
     [(''policy/privacy/index.html'', privacy_page e),
      (''policy/terms/index.html'', terms_page e),
      (''policy/refund/index.html'', refund_page e)]"

definition write_policy_pages :: "env \<Rightarrow> state \<Rightarrow> state" where
  "write_policy_pages e st = fold (\<lambda>(p, html). write_file p html) (pages e) st"

section \<open>Template palette patch\<close>

definition patch_blog_template_palette :: "world \<Rightarrow> env \<Rightarrow> string \<Rightarrow> state \<Rightarrow> state" where
  "patch_blog_template_palette w e path st =
     (case files st path of
        None \<Rightarrow> st
      | Some s \<Rightarrow>
          write_file path (palette_rewrite w e (universal_newlines (utf8_ignore s))) st)"

section \<open>The Python step of \<^verbatim>\<open>init-blog.sh\<close>\<close>

text \<open>
  The values that the script writes into texts come from the environment. A value that
  is not valid UTF-8 makes \<^verbatim>\<open>write_text(..., encoding='utf-8')\<close> raise at the first
  file into which it has been inserted, in the middle of the loop over the files; such
  runs are outside the model. With valid values every text written is valid UTF-8 (the
  other values are ASCII), and no write raises.
\<close>

definition values_utf8 :: "env \<Rightarrow> bool" where
  "values_utf8 e \<longleftrightarrow>
     list_all utf8
       [INIT_DOMAIN e, INIT_BRAND e, INIT_TOPIC e, INIT_SPEED e, INIT_SUBSCRIBE_EMAIL e]"

text \<open>
  The shells are read without \<^verbatim>\<open>errors='ignore'\<close>: the home shell when the home page
  is written, the blog shell in the first round of the loop, after the home page has been
  written.
\<close>

definition python_main :: "world \<Rightarrow> env \<Rightarrow> state \<Rightarrow> outcome" where
  "python_main w e st =
     (let st1 = provision_assets w e st in
      case files st1 home_shell of
        None \<Rightarrow> Aborted (SystemExit ''Missing universal_blog_shell.html in project root'') st1
      | Some home \<Rightarrow>
         (case files st1 blog_shell of
            None \<Rightarrow> Aborted (SystemExit ''Missing universal_blog_index.html in project root'') st1
          | Some blog \<Rightarrow>
              if \<not> utf8 home then Aborted (UnicodeDecodeError home_shell) st1
              else if \<not> utf8 blog then
                Aborted (UnicodeDecodeError blog_shell)
                  (write_file ''index.html'' (universal_newlines home) st1)
              else if \<not> values_utf8 e then OutsideModel
              else
                Completed
                  (print ''[ok] html placeholders applied''
                    (patch_blog_template_palette w e ''blog/template.html''
                      (write_policy_pages e
                        (page_materializer e home blog st1))))))"

section \<open>\<^verbatim>\<open>bootstrap-template.sh\<close>\<close>

text \<open>
  The script interpolates the domain and the brand into the replacement part of a
  \<^verbatim>\<open>sed\<close> command \<^verbatim>\<open>s/old/new/g\<close>. In a replacement \<^verbatim>\<open>&\<close> stands for the matched
  text. A slash, a backslash or a newline makes another script of the line (in the usual
  case a malformed one, but not always); what \<^verbatim>\<open>sed\<close> then does to the files it is
  run on is outside the model.
\<close>

definition sed_plain :: "string \<Rightarrow> bool" where
  "sed_plain v \<longleftrightarrow> CHR ''/'' \<notin> set v \<and> CHR 0x5C \<notin> set v \<and> newline \<notin> set v"

definition sed_replacement :: "string \<Rightarrow> string \<Rightarrow> string" where
  "sed_replacement matched v = concat (map (\<lambda>c. if c = CHR ''&'' then matched else [c]) v)"

definition sed_s :: "string \<Rightarrow> string \<Rightarrow> string \<Rightarrow> string" where
  "sed_s old new s = str_replace old (sed_replacement old new) s"

text \<open>The files the script looks at (by \<^verbatim>\<open>find\<close>, or by \<^verbatim>\<open>rg\<close> when it is
  installed), and the ones that hold a legacy string: \<^verbatim>\<open>sed\<close> is run on these only.\<close>

definition bootstrap_glob :: "string \<Rightarrow> bool" where
  "bootstrap_glob p \<longleftrightarrow>
     list_ex (\<lambda>ext. suffix ext p) [''.html'', ''.xml'', ''.txt'', ''.js'', ''.json'']"

definition grep_legacy :: "string \<Rightarrow> bool" where
  "grep_legacy s \<longleftrightarrow>
     sublist ''myugc.studio'' s \<or> sublist ''My UGC Studio'' s \<or> sublist ''MYUGC Studio'' s"

definition bootstrap_text :: "string \<Rightarrow> string \<Rightarrow> string \<Rightarrow> string" where
  "bootstrap_text domain brand s =
     sed_s ''MYUGC Studio'' brand
       (sed_s ''My UGC Studio'' brand
          (sed_s ''myugc.studio'' domain s))"

text \<open>
  \<^verbatim>\<open>s#<lastmod>[0-9]\{4\}-[0-9]\{2\}-[0-9]\{2\}</lastmod>#<lastmod>${TODAY}</lastmod>#g\<close>
  on \<^verbatim>\<open>sitemap.xml\<close>; the pattern is 29 characters long.
\<close>

definition digit :: "char \<Rightarrow> bool" where
  "digit c \<longleftrightarrow> c \<in> set ''0123456789''"

definition lastmod_at :: "string \<Rightarrow> bool" where
  "lastmod_at s \<longleftrightarrow>
     (let w = take 29 s in
      length w = 29 \<and> take 9 w = ''<lastmod>''
      \<and> list_all digit (take 4 (drop 9 w)) \<and> take 1 (drop 13 w) = ''-''
      \<and> list_all digit (take 2 (drop 14 w)) \<and> take 1 (drop 16 w) = ''-''
      \<and> list_all digit (take 2 (drop 17 w)) \<and> drop 19 w = ''</lastmod>'')"

fun stamp_lastmod :: "string \<Rightarrow> string \<Rightarrow> string" where
  "stamp_lastmod day [] = []"
| "stamp_lastmod day (c # cs) =
     (if lastmod_at (c # cs)
      then ''<lastmod>'' @ day @ ''</lastmod>'' @ stamp_lastmod day (drop 29 (c # cs))
      else c # stamp_lastmod day cs)"

definition listed :: "world \<Rightarrow> string \<Rightarrow> string \<Rightarrow> bool" where
  "listed w p s \<longleftrightarrow>
     bootstrap_glob p \<and> grep_legacy s
     \<and> (case rg w of None \<Rightarrow> True | Some passes_over \<Rightarrow> \<not> passes_over p s)"

definition bootstrap_file :: "world \<Rightarrow> string \<Rightarrow> string \<Rightarrow> string \<Rightarrow> string \<Rightarrow> string" where
  "bootstrap_file w domain brand p s =
     (let s1 = (if listed w p s then bootstrap_text domain brand s else s)
      in if p = ''sitemap.xml'' then stamp_lastmod (today w) s1 else s1)"

definition bootstrap_usage :: string where
  \<open>bootstrap_usage = ''Usage: bash scripts/bootstrap-template.sh --domain <domain> --brand "<Brand Name>"''\<close>

text \<open>The directory and the output after the script has run to its end.\<close>

definition bootstrapped :: "world \<Rightarrow> string \<Rightarrow> string \<Rightarrow> state \<Rightarrow> state" where
  "bootstrapped w domain brand st =
     print (''Bootstrap done for domain='' @ domain @ '' brand='' @ brand)
       (st\<lparr>files := (\<lambda>p. map_option (bootstrap_file w domain brand p) (files st p))\<rparr>)"

text \<open>\<^verbatim>\<open>sed\<close> is run when some file of the directory is listed.\<close>

inductive sed_is_run :: "world \<Rightarrow> state \<Rightarrow> bool" where
  "files st p = Some s \<Longrightarrow> listed w p s \<Longrightarrow> sed_is_run w st"

text \<open>
  The script runs to its end when \<^verbatim>\<open>sed\<close> takes the values as they are, and also
  when no file is listed, so that \<^verbatim>\<open>sed\<close> is not run on any file.
\<close>

definition bootstrap_template :: "world \<Rightarrow> string \<Rightarrow> string \<Rightarrow> state \<Rightarrow> outcome" where
  "bootstrap_template w domain brand st =
     (if domain = [] \<or> brand = [] then
        Aborted UsageError (print bootstrap_usage st)
      else if sed_plain domain \<and> sed_plain brand then
        Completed (bootstrapped w domain brand st)
      else if sed_is_run w st then OutsideModel
      else Completed (bootstrapped w domain brand st))"

section \<open>\<^verbatim>\<open>init-blog.sh\<close>\<close>

text \<open>The last step: the logo's background made transparent, when ImageMagick is there.\<close>

definition transparent_logo :: "world \<Rightarrow> string \<Rightarrow> state \<Rightarrow> state" where
  "transparent_logo w logo_file st =
     (case convert w of
        None \<Rightarrow> st
      | Some im \<Rightarrow>
         (case files st logo_file of
            None \<Rightarrow> st
          | Some img \<Rightarrow>
             (let BG_HEX = take 6 (hd (split_lines (top_left_hex im img))) in
              if BG_HEX = [] then st
              else
                (let st1 = (case make_transparent im BG_HEX img of
                              None \<Rightarrow> st | Some img' \<Rightarrow> write_file logo_file img' st)
                 in copy_if_exists logo_file ''logo.png'' st1))))"

definition usage :: string where
  \<open>usage = ''Usage: bash scripts/init-blog.sh --domain <domain> --brand "<Brand Name>" --topic "<Niche>" [--speed 26] [--subscribe-email info@domain]''\<close>

definition init_blog :: "world \<Rightarrow> string list \<Rightarrow> state \<Rightarrow> outcome" where
  "init_blog w args st =
     (case read_opts args of
        Inl (UnknownArg a) \<Rightarrow> Aborted (UnknownArg a) (print (''Unknown arg: '' @ a) st)
      | Inl UsageError \<Rightarrow> Aborted UsageError (print usage st)
      | Inl err \<Rightarrow> Aborted err st
      | Inr x \<Rightarrow>
         (case bootstrap_template w (DOMAIN x) (BRAND x) st of
            Aborted err st1 \<Rightarrow> Aborted err st1
          | OutsideModel \<Rightarrow> OutsideModel
          | Completed st1 \<Rightarrow>
             (case python_main w (export_env x) st1 of
                Aborted err st2 \<Rightarrow> Aborted err st2
              | OutsideModel \<Rightarrow> OutsideModel
              | Completed st2 \<Rightarrow>
                  Completed
                    (print (''Init completed: '' @ DOMAIN x @ '' ('' @ BRAND x @ '')'')
                       (transparent_logo w (LOGO_FILE (BRAND x)) st2)))))"

section \<open>Auxiliary notions\<close>

text \<open>
  Two notions used to state what the provisioner leaves at the asset paths: the image a
  request produced, if any, and the content both files of a pair end with (the produced
  image, else the brand-specific file, else the canonical file).
\<close>

definition generated :: "world \<Rightarrow> response \<Rightarrow> string option" where
  "generated w r =
     (if api_key w = [] then None
      else (case gen r of Inl ex \<Rightarrow> None | Inr img \<Rightarrow> Some img))"

definition settle :: "string option \<Rightarrow> string option \<Rightarrow> string option \<Rightarrow> string option" where
  "settle g own canonical =
     (case g of Some img \<Rightarrow> Some img
      | None \<Rightarrow> (case own of Some c \<Rightarrow> Some c | None \<Rightarrow> canonical))"

text \<open>The placeholder tokens: the keys of \<^verbatim>\<open>repl\<close>.\<close>

definition placeholders :: "string list" where
  "placeholders =
     [''__BRAND__'', ''__DOMAIN__'', ''__LOGO_FILE__'', ''__HERO_FILE__'', ''__BG0__'',
      ''__BG1__'', ''__BG2__'', ''__ACCENT__'', ''__ACCENT_HOVER__'', ''__RAD1__'',
      ''__RAD2__'', ''__RAD3__'', ''__ANIM_SPEED__'', ''__HERO_TITLE__'',
      ''__HERO_SUBTITLE__'', ''__SUBSCRIBE_EMAIL__'']"

text \<open>
  A replacement \<open>v\<close> can complete an occurrence of a word \<open>t\<close> only where the two
  overlap: \<open>v\<close> lies inside \<open>t\<close>, \<open>t\<close> lies inside \<open>v\<close>, or a beginning of one is an
  end of the other.
\<close>

definition overlap :: "string \<Rightarrow> string \<Rightarrow> bool" where
  "overlap t v \<longleftrightarrow>
     sublist v t \<or> sublist t v
     \<or> list_ex (\<lambda>p. p \<noteq> [] \<and> suffix p v) (prefixes t)
     \<or> list_ex (\<lambda>p. p \<noteq> [] \<and> prefix p v) (suffixes t)"

text \<open>A value that cannot complete a placeholder: it has no underscore and is not a part
  of a placeholder (in particular it is not empty).\<close>

definition clean_value :: "string \<Rightarrow> bool" where
  "clean_value v \<longleftrightarrow>
     CHR ''_'' \<notin> set v \<and> list_all (\<lambda>t. \<not> sublist v t) placeholders"

text \<open>
  A text on which a further run changes nothing: it is valid UTF-8 and has no
  placeholder, none of the legacy strings that the bootstrap and the substitution pass
  rewrite, and no carriage return.
\<close>

definition settled :: "string \<Rightarrow> bool" where
  "settled s \<longleftrightarrow>
     utf8 s \<and> list_all (\<lambda>t. \<not> sublist t s) placeholders \<and> \<not> grep_legacy s
     \<and> CHR 0x0D \<notin> set s"

text \<open>The state after a completed run that found the texts \<open>home\<close> and \<open>blog\<close> in
  the two shells after the bootstrap.\<close>

definition after_run :: "world \<Rightarrow> opts \<Rightarrow> string \<Rightarrow> string \<Rightarrow> state \<Rightarrow> state" where
  "after_run w x home blog st =
     print (''Init completed: '' @ DOMAIN x @ '' ('' @ BRAND x @ '')'')
       (transparent_logo w (LOGO_FILE (BRAND x))
         (print ''[ok] html placeholders applied''
           (patch_blog_template_palette w (export_env x) ''blog/template.html''
             (write_policy_pages (export_env x)
               (page_materializer (export_env x) home blog
                  (provision_assets w (export_env x)
                     (bootstrapped w (DOMAIN x) (BRAND x) st)))))))"

section \<open>Example inputs\<close>

text \<open>A world without credentials, where every request would fail and ImageMagick is
  not installed.\<close>

definition no_credentials :: world where
  "no_credentials =
     \<lparr>GEMINI_API_KEY = None, GOOGLE_API_KEY = None,
      logo_response = NetworkFailure ''timed out'',
      hero_response = NetworkFailure ''timed out'',
      today = ''2026-01-01'', rg = None, convert = None, palette_rewrite = (\<lambda>e s. s)\<rparr>"

text \<open>A world with a key, where the logo request is answered with an error status and the
  hero request with a body without an image.\<close>

definition failing_service :: world where
  "failing_service =
     \<lparr>GEMINI_API_KEY = Some ''k3y'', GOOGLE_API_KEY = None,
      logo_response = HttpStatus 503 ''Service Unavailable'',
      hero_response = Candidates [[NoImage]],
      today = ''2026-01-01'', rg = None, convert = None, palette_rewrite = (\<lambda>e s. s)\<rparr>"

definition example_args :: "string list" where
  "example_args =
     [''--domain'', ''example.com'', ''--brand'', ''Example Co'', ''--topic'', ''wine'']"

definition example_opts :: opts where
  "example_opts =
     \<lparr>DOMAIN = ''example.com'', BRAND = ''Example Co'', TOPIC = ''wine'', SPEED = ''26'',
      SUBSCRIBE_EMAIL = ''info@example.com''\<rparr>"

definition empty_site :: state where
  "empty_site = \<lparr>files = Map.empty, stdout = []\<rparr>"

definition logo_site :: state where
  "logo_site = \<lparr>files = [''logo.png'' \<mapsto> ''old logo''], stdout = []\<rparr>"

definition two_logos_site :: state where
  "two_logos_site =
     \<lparr>files = [''logo-example-co.png'' \<mapsto> ''new logo'', ''logo.png'' \<mapsto> ''old logo''],
      stdout = []\<rparr>"

text \<open>Two small shells, and a directory that holds them and a logo.\<close>

definition shell_home :: string where
  \<open>shell_home =
     ''<title>__BRAND__</title><h1>__HERO_TITLE__</h1><a href="mailto:__SUBSCRIBE_EMAIL__">mail</a>''\<close>

definition shell_blog :: string where
  \<open>shell_blog =
     ''<title>__BRAND__ blog</title><a href="https://myugc.studio/">__DOMAIN__</a>''\<close>

definition shell_site :: state where
  "shell_site =
     \<lparr>files =
        [''universal_blog_shell.html'' \<mapsto> shell_home,
         ''universal_blog_index.html'' \<mapsto> shell_blog,
         ''logo.png'' \<mapsto> ''old logo''],
      stdout = []\<rparr>"


text \<open>Arguments with a slash in the domain.\<close>

definition slash_args :: "string list" where
  "slash_args =
     [''--domain'', ''example.com/blog'', ''--brand'', ''Example Co'', ''--topic'', ''wine'']"

definition slash_opts :: opts where
  "slash_opts =
     \<lparr>DOMAIN = ''example.com/blog'', BRAND = ''Example Co'', TOPIC = ''wine'', SPEED = ''26'',
      SUBSCRIBE_EMAIL = ''info@example.com/blog''\<rparr>"

definition underscore_topic_args :: "string list" where
  "underscore_topic_args =
     [''--domain'', ''example.com'', ''--brand'', ''Example Co'', ''--topic'', ''__DOMAIN__'']"


section \<open>Properties\<close>

subsection \<open>Palette\<close>

lemma sublist_trans: "sublist a b \<Longrightarrow> sublist b c \<Longrightarrow> sublist a c"
  by (rule sublist_order.order_trans)

lemma sublist_mem: "sublist w t \<Longrightarrow> c \<in> set w \<Longrightarrow> c \<in> set t"
  by (rule subsetD [OF set_mono_sublist])


lemma not_sublist_notin:
  assumes "c \<in> set w" and "c \<notin> set t"
  shows "\<not> sublist w t"
proof
  assume "sublist w t"
  then have "c \<in> set t" using assms(1) by (rule sublist_mem)
  with assms(2) show False by simp
qed














subsection \<open>Asset Provisioner\<close>

lemma asset_names_distinct:
  "LOGO_FILE b \<noteq> ''logo.png''" "LOGO_FILE b \<noteq> ''hero_ai.jpg''"
  "HERO_FILE b \<noteq> ''hero_ai.jpg''" "HERO_FILE b \<noteq> ''logo.png''"
  "LOGO_FILE b \<noteq> HERO_FILE b" "HERO_FILE b \<noteq> LOGO_FILE b"
  "''logo.png'' \<noteq> LOGO_FILE b" "''hero_ai.jpg'' \<noteq> LOGO_FILE b"
  "''hero_ai.jpg'' \<noteq> HERO_FILE b" "''logo.png'' \<noteq> HERO_FILE b"
  by (simp_all add: LOGO_FILE_def HERO_FILE_def)

lemma export_env_fields:
  "INIT_LOGO_FILE (export_env x) = LOGO_FILE (BRAND x)"
  "INIT_HERO_FILE (export_env x) = HERO_FILE (BRAND x)"
  "INIT_DOMAIN (export_env x) = DOMAIN x"
  "INIT_BRAND (export_env x) = BRAND x"
  "INIT_TOPIC (export_env x) = TOPIC x"
  "INIT_SPEED (export_env x) = SPEED x"
  "INIT_SUBSCRIBE_EMAIL (export_env x) = SUBSCRIBE_EMAIL x"
  by (simp_all add: export_env_def Let_def)

lemma files_generate:
  "files (generate what f r st) p =
     (if p = f then (case gen r of Inl ex \<Rightarrow> files st f | Inr img \<Rightarrow> Some img)
      else files st p)"
  by (simp add: generate_def try_generate_def print_def write_file_def split: sum.splits)

lemma stdout_generate:
  "stdout (generate what f r st) =
     stdout st @
       [case gen r of
          Inl ex \<Rightarrow> ''[warn] '' @ what @ '' generation failed: '' @ show_exn ex
        | Inr img \<Rightarrow> ''[ok] '' @ what @ '' generated'']"
  by (simp add: generate_def try_generate_def print_def write_file_def split: sum.splits)

lemma files_copy_if_missing:
  "files (copy_if_missing a b st) p =
     (if p = a then (case files st a of Some c \<Rightarrow> Some c | None \<Rightarrow> files st b)
      else files st p)"
  by (simp add: copy_if_missing_def write_file_def split: option.splits)

lemma files_copy_if_exists:
  "files (copy_if_exists a b st) p =
     (if p = b then (case files st a of None \<Rightarrow> files st b | Some c \<Rightarrow> Some c)
      else files st p)"
  by (simp add: copy_if_exists_def write_file_def split: option.splits)

lemma stdout_copy:
  "stdout (copy_if_missing a b st) = stdout st"
  "stdout (copy_if_exists a b st) = stdout st"
  by (simp_all add: copy_if_missing_def copy_if_exists_def write_file_def split: option.splits)

lemma stdout_provision_assets:
  "stdout (provision_assets w e st) =
     stdout st @
       (if api_key w = [] then []
        else [case gen (logo_response w) of
                Inl ex \<Rightarrow> ''[warn] logo generation failed: '' @ show_exn ex
              | Inr img \<Rightarrow> ''[ok] logo generated'',
              case gen (hero_response w) of
                Inl ex \<Rightarrow> ''[warn] hero generation failed: '' @ show_exn ex
              | Inr img \<Rightarrow> ''[ok] hero generated''])"
  by (simp add: provision_assets_def canonical_assets_def fallback_assets_def
      generate_assets_def stdout_copy stdout_generate split: sum.splits)

lemma files_generate_assets:
  "files (generate_assets w e st) p =
     (if api_key w = [] then files st p
      else files (generate ''hero'' (INIT_HERO_FILE e) (hero_response w)
             (generate ''logo'' (INIT_LOGO_FILE e) (logo_response w) st)) p)"
  by (simp add: generate_assets_def)

lemma provision_assets_frame:
  assumes "p \<noteq> INIT_LOGO_FILE e" "p \<noteq> INIT_HERO_FILE e" "p \<noteq> ''logo.png''"
    "p \<noteq> ''hero_ai.jpg''"
  shows "files (provision_assets w e st) p = files st p"
  using assms
  by (simp add: provision_assets_def canonical_assets_def fallback_assets_def
      files_copy_if_exists files_copy_if_missing files_generate_assets files_generate)

lemma provision_assets_logo:
  assumes "INIT_LOGO_FILE e \<noteq> ''logo.png''" "INIT_LOGO_FILE e \<noteq> ''hero_ai.jpg''"
    "INIT_HERO_FILE e \<noteq> ''logo.png''" "INIT_HERO_FILE e \<noteq> INIT_LOGO_FILE e"
  shows "files (provision_assets w e st) (INIT_LOGO_FILE e)
           = settle (generated w (logo_response w)) (files st (INIT_LOGO_FILE e)) (files st ''logo.png'')"
    and "files (provision_assets w e st) ''logo.png''
           = settle (generated w (logo_response w)) (files st (INIT_LOGO_FILE e)) (files st ''logo.png'')"
  using assms assms(1,2,3,4) [symmetric]
  by (simp_all add: provision_assets_def canonical_assets_def fallback_assets_def
      files_copy_if_exists files_copy_if_missing files_generate_assets files_generate
      settle_def generated_def split: option.splits sum.splits)

lemma provision_assets_hero:
  assumes "INIT_HERO_FILE e \<noteq> ''hero_ai.jpg''" "INIT_LOGO_FILE e \<noteq> ''hero_ai.jpg''"
    "INIT_HERO_FILE e \<noteq> ''logo.png''" "INIT_HERO_FILE e \<noteq> INIT_LOGO_FILE e"
  shows "files (provision_assets w e st) (INIT_HERO_FILE e)
           = settle (generated w (hero_response w)) (files st (INIT_HERO_FILE e)) (files st ''hero_ai.jpg'')"
    and "files (provision_assets w e st) ''hero_ai.jpg''
           = settle (generated w (hero_response w)) (files st (INIT_HERO_FILE e)) (files st ''hero_ai.jpg'')"
  using assms assms(1,2,3,4) [symmetric]
  by (simp_all add: provision_assets_def canonical_assets_def fallback_assets_def
      files_copy_if_exists files_copy_if_missing files_generate_assets files_generate
      settle_def generated_def split: option.splits sum.splits)

lemma settle_None:
  "settle (generated w r) own canonical = None
     \<longleftrightarrow> own = None \<and> canonical = None \<and> (api_key w = [] \<or> (\<exists>ex. gen r = Inl ex))"
  by (cases "gen r"; cases own; cases canonical; cases "api_key w = []")
     (simp_all add: settle_def generated_def)

text \<open>
  C6 (as amended). After asset provisioning, the brand-specific file and the canonical
  file are either both there with the same bytes or both absent; they are absent exactly
  when neither was there before and the generation produced nothing (no credential,
  or a failed request).
\<close>

theorem C6_brand_and_canonical_agree:
  "files (provision_assets w (export_env x) st) (LOGO_FILE (BRAND x))
     = files (provision_assets w (export_env x) st) ''logo.png''
   \<and> files (provision_assets w (export_env x) st) (HERO_FILE (BRAND x))
     = files (provision_assets w (export_env x) st) ''hero_ai.jpg''
   \<and> (files (provision_assets w (export_env x) st) ''logo.png'' = None
        \<longleftrightarrow> files st (LOGO_FILE (BRAND x)) = None \<and> files st ''logo.png'' = None
            \<and> (api_key w = [] \<or> (\<exists>ex. gen (logo_response w) = Inl ex)))
   \<and> (files (provision_assets w (export_env x) st) ''hero_ai.jpg'' = None
        \<longleftrightarrow> files st (HERO_FILE (BRAND x)) = None \<and> files st ''hero_ai.jpg'' = None
            \<and> (api_key w = [] \<or> (\<exists>ex. gen (hero_response w) = Inl ex)))"
proof -
  let ?e = "export_env x"
  have l: "INIT_LOGO_FILE ?e \<noteq> ''logo.png''" "INIT_LOGO_FILE ?e \<noteq> ''hero_ai.jpg''"
    and h: "INIT_HERO_FILE ?e \<noteq> ''hero_ai.jpg''" "INIT_HERO_FILE ?e \<noteq> ''logo.png''"
      "INIT_HERO_FILE ?e \<noteq> INIT_LOGO_FILE ?e"
    by (simp_all add: export_env_fields asset_names_distinct)
  note logo = provision_assets_logo [OF l(1) l(2) h(2) h(3), of w st]
  note hero = provision_assets_hero [OF h(1) l(2) h(2) h(3), of w st]
  show ?thesis
    using logo hero
    by (simp add: export_env_fields settle_None)
qed

text \<open>
  C6 as stated fails: on an empty directory and without a credential, neither the
  brand-specific logo nor \<^verbatim>\<open>logo.png\<close> exists after the provisioning.
\<close>

theorem C6_counterexample:
  "files (provision_assets no_credentials (export_env example_opts) empty_site) ''logo.png'' = None
   \<and> files (provision_assets no_credentials (export_env example_opts) empty_site)
        ''logo-example-co.png'' = None
   \<and> LOGO_FILE (BRAND example_opts) = ''logo-example-co.png''"
  by code_simp

text \<open>
  C7 (as amended). Without a credential the provisioner prints nothing and writes no
  generated image; a canonical file (\<^verbatim>\<open>logo.png\<close>, \<^verbatim>\<open>hero_ai.jpg\<close>) that was
  there keeps its bytes when no brand-specific file was there, and is overwritten with
  the bytes of the brand-specific file when one was there.
\<close>

theorem C7_no_credential_canonical_files:
  assumes "api_key w = []"
  shows "files (provision_assets w (export_env x) st) ''logo.png''
           = (case files st (LOGO_FILE (BRAND x)) of
                Some c \<Rightarrow> Some c | None \<Rightarrow> files st ''logo.png'')
         \<and> files (provision_assets w (export_env x) st) ''hero_ai.jpg''
           = (case files st (HERO_FILE (BRAND x)) of
                Some c \<Rightarrow> Some c | None \<Rightarrow> files st ''hero_ai.jpg'')
         \<and> stdout (provision_assets w (export_env x) st) = stdout st"
proof -
  let ?e = "export_env x"
  have l: "INIT_LOGO_FILE ?e \<noteq> ''logo.png''" "INIT_LOGO_FILE ?e \<noteq> ''hero_ai.jpg''"
    and h: "INIT_HERO_FILE ?e \<noteq> ''hero_ai.jpg''" "INIT_HERO_FILE ?e \<noteq> ''logo.png''"
      "INIT_HERO_FILE ?e \<noteq> INIT_LOGO_FILE ?e"
    by (simp_all add: export_env_fields asset_names_distinct)
  note logo = provision_assets_logo(2) [OF l(1) l(2) h(2) h(3), of w st]
  note hero = provision_assets_hero(2) [OF h(1) l(2) h(2) h(3), of w st]
  show ?thesis
    using logo hero assms
    by (simp add: export_env_fields settle_def generated_def stdout_provision_assets)
qed

theorem C7_witness:
  "api_key no_credentials = []
   \<and> files logo_site ''logo.png'' = Some ''old logo''
   \<and> files (provision_assets no_credentials (export_env example_opts) logo_site) ''logo.png''
       = Some ''old logo''
   \<and> stdout (provision_assets no_credentials (export_env example_opts) logo_site) = []"
proof -
  have k: "api_key no_credentials = []"
    by code_simp
  have r: "(case files logo_site (LOGO_FILE (BRAND example_opts)) of
              Some c \<Rightarrow> Some c | None \<Rightarrow> files logo_site ''logo.png'') = Some ''old logo''"
    by code_simp
  have s: "files logo_site ''logo.png'' = Some ''old logo''" "stdout logo_site = []"
    by (simp_all add: logo_site_def)
  from C7_no_credential_canonical_files [OF k, of example_opts logo_site] r s k
  show ?thesis by simp
qed

text \<open>
  C7 as stated fails: without a credential, a \<^verbatim>\<open>logo.png\<close> that was there is
  overwritten when the brand-specific logo was there too.
\<close>

theorem C7_counterexample:
  "api_key no_credentials = []
   \<and> files two_logos_site ''logo.png'' = Some ''old logo''
   \<and> files (provision_assets no_credentials (export_env example_opts) two_logos_site) ''logo.png''
       = Some ''new logo''"
  by code_simp

subsection \<open>The run as a whole\<close>

lemma shell_names_distinct:
  "home_shell \<noteq> LOGO_FILE b" "home_shell \<noteq> HERO_FILE b"
  "home_shell \<noteq> ''logo.png''" "home_shell \<noteq> ''hero_ai.jpg''"
  "blog_shell \<noteq> LOGO_FILE b" "blog_shell \<noteq> HERO_FILE b"
  "blog_shell \<noteq> ''logo.png''" "blog_shell \<noteq> ''hero_ai.jpg''"
  by (simp_all add: home_shell_def blog_shell_def LOGO_FILE_def HERO_FILE_def)

lemma provision_assets_shells:
  "files (provision_assets w (export_env x) st) home_shell = files st home_shell"
  "files (provision_assets w (export_env x) st) blog_shell = files st blog_shell"
  by (rule provision_assets_frame; simp add: export_env_fields shell_names_distinct)+

lemma read_opts_nonempty:
  assumes "read_opts args = Inr x"
  shows "DOMAIN x \<noteq> []" and "BRAND x \<noteq> []" and "TOPIC x \<noteq> []"
  using assms
  by (auto simp: read_opts_def split: sum.splits if_splits)

text \<open>The bootstrap runs to its end when \<^verbatim>\<open>sed\<close> takes the domain and the brand as
  they are, or is not run at all.\<close>

lemma bootstrap_template_Completed:
  assumes "domain \<noteq> []" "brand \<noteq> []"
    and "sed_plain domain \<and> sed_plain brand \<or> \<not> sed_is_run w st"
  shows "bootstrap_template w domain brand st = Completed (bootstrapped w domain brand st)"
proof (cases "sed_plain domain \<and> sed_plain brand")
  case True
  with assms(1,2) show ?thesis by (simp add: bootstrap_template_def)
next
  case False
  with assms(3) have "\<not> sed_is_run w st" by simp
  with assms(1,2) show ?thesis by (simp add: bootstrap_template_def)
qed

lemma files_bootstrapped:
  "files (bootstrapped w domain brand st) p
     = map_option (bootstrap_file w domain brand p) (files st p)"
  by (simp add: bootstrapped_def print_def)

lemma stdout_bootstrapped:
  "stdout (bootstrapped w domain brand st)
     = stdout st @ [''Bootstrap done for domain='' @ domain @ '' brand='' @ brand]"
  by (simp add: bootstrapped_def print_def)

lemma stdout_write_file: "stdout (write_file p c st) = stdout st"
  by (simp add: write_file_def)

lemma stdout_print: "stdout (print l st) = stdout st @ [l]"
  by (simp add: print_def)

lemma files_print: "files (print l st) = files st"
  by (simp add: print_def)

lemma stdout_fold_write:
  "stdout (fold (\<lambda>(p, c). write_file p c) kvs st) = stdout st"
  by (induction kvs arbitrary: st) (simp_all add: stdout_write_file split_beta)

lemma stdout_materialize: "stdout (materialize home blog st) = stdout st"
  by (simp add: materialize_def blog_pages_def stdout_write_file)

lemma stdout_page_materializer: "stdout (page_materializer e home blog st) = stdout st"
  by (simp add: page_materializer_def substitute_def stdout_materialize)

lemma stdout_write_policy_pages: "stdout (write_policy_pages e st) = stdout st"
  by (simp add: write_policy_pages_def stdout_fold_write)

lemma stdout_patch: "stdout (patch_blog_template_palette w e p st) = stdout st"
  by (simp add: patch_blog_template_palette_def stdout_write_file split: option.splits)

lemma stdout_transparent_logo: "stdout (transparent_logo w f st) = stdout st"
  by (simp add: transparent_logo_def Let_def stdout_copy stdout_write_file
      split: option.splits)

text \<open>With a shell missing, the Python step ends at the check of the shells.\<close>

lemma python_main_Aborted:
  assumes "files st home_shell = None \<or> files st blog_shell = None"
  shows "\<exists>msg. python_main w (export_env x) st
           = Aborted (SystemExit msg) (provision_assets w (export_env x) st)"
  using assms
  by (auto simp: python_main_def Let_def provision_assets_shells split: option.splits)

text \<open>With both shells there and readable, and with values that can be written, it runs
  to its end.\<close>

lemma python_main_Completed:
  assumes "files st home_shell = Some home" "files st blog_shell = Some blog"
    and "utf8 home" "utf8 blog" "values_utf8 (export_env x)"
  shows "python_main w (export_env x) st =
           Completed
             (print ''[ok] html placeholders applied''
               (patch_blog_template_palette w (export_env x) ''blog/template.html''
                 (write_policy_pages (export_env x)
                   (page_materializer (export_env x) home blog
                     (provision_assets w (export_env x) st)))))"
  using assms
  by (simp add: python_main_def Let_def provision_assets_shells)

lemma values_utf8_export_env:
  "values_utf8 (export_env x)
     \<longleftrightarrow> list_all utf8 [DOMAIN x, BRAND x, TOPIC x, SPEED x, SUBSCRIBE_EMAIL x]"
  by (simp add: values_utf8_def export_env_fields)

lemma init_blog_python:
  assumes "read_opts args = Inr x"
    and "sed_plain (DOMAIN x) \<and> sed_plain (BRAND x) \<or> \<not> sed_is_run w st"
  shows "init_blog w args st =
     (case python_main w (export_env x) (bootstrapped w (DOMAIN x) (BRAND x) st) of
        Aborted err st2 \<Rightarrow> Aborted err st2
      | OutsideModel \<Rightarrow> OutsideModel
      | Completed st2 \<Rightarrow>
          Completed
            (print (''Init completed: '' @ DOMAIN x @ '' ('' @ BRAND x @ '')'')
               (transparent_logo w (LOGO_FILE (BRAND x)) st2)))"
  using assms read_opts_nonempty [OF assms(1)]
  by (simp add: init_blog_def bootstrap_template_Completed)

text \<open>A run that gets through the bootstrap, finds both shells readable and has values
  that can be written completes, and its output is the following.\<close>

lemma init_blog_completes:
  assumes "read_opts args = Inr x"
    and "sed_plain (DOMAIN x) \<and> sed_plain (BRAND x) \<or> \<not> sed_is_run w st"
    and "list_all utf8 [DOMAIN x, BRAND x, TOPIC x, SPEED x, SUBSCRIBE_EMAIL x]"
    and "files st home_shell = Some home" and "files st blog_shell = Some blog"
    and "utf8 (bootstrap_file w (DOMAIN x) (BRAND x) home_shell home)"
    and "utf8 (bootstrap_file w (DOMAIN x) (BRAND x) blog_shell blog)"
  shows "\<exists>st'. init_blog w args st = Completed st'
           \<and> stdout st' =
               stdout st
               @ [''Bootstrap done for domain='' @ DOMAIN x @ '' brand='' @ BRAND x]
               @ (if api_key w = [] then []
                  else [case gen (logo_response w) of
                          Inl ex \<Rightarrow> ''[warn] logo generation failed: '' @ show_exn ex
                        | Inr img \<Rightarrow> ''[ok] logo generated'',
                        case gen (hero_response w) of
                          Inl ex \<Rightarrow> ''[warn] hero generation failed: '' @ show_exn ex
                        | Inr img \<Rightarrow> ''[ok] hero generated''])
               @ [''[ok] html placeholders applied'',
                  ''Init completed: '' @ DOMAIN x @ '' ('' @ BRAND x @ '')'']"
proof -
  let ?sb = "bootstrapped w (DOMAIN x) (BRAND x) st"
  have home: "files ?sb home_shell
                = Some (bootstrap_file w (DOMAIN x) (BRAND x) home_shell home)"
    using assms(4) by (simp add: files_bootstrapped)
  have blog: "files ?sb blog_shell
                = Some (bootstrap_file w (DOMAIN x) (BRAND x) blog_shell blog)"
    using assms(5) by (simp add: files_bootstrapped)
  have v: "values_utf8 (export_env x)"
    using assms(3) by (simp only: values_utf8_export_env)
  show ?thesis
    unfolding init_blog_python [OF assms(1,2)]
      python_main_Completed [OF home blog assms(6,7) v]
    by (simp add: stdout_print stdout_transparent_logo stdout_patch stdout_write_policy_pages
        stdout_page_materializer stdout_provision_assets stdout_bootstrapped)
qed

lemma read_opts_example: "read_opts example_args = Inr example_opts"
  by code_simp

lemma sed_plain_example: "sed_plain (DOMAIN example_opts) \<and> sed_plain (BRAND example_opts)"
  by code_simp

lemma values_example:
  "list_all utf8 [DOMAIN example_opts, BRAND example_opts, TOPIC example_opts,
     SPEED example_opts, SUBSCRIBE_EMAIL example_opts]"
  by code_simp
text \<open>
  C5 (as amended). Whatever the image service answers, the run completes, provided that
  the rest of the run can: the bootstrap runs to its end (the domain and the brand hold
  no slash, backslash or newline, or no file holds a legacy string, so that \<^verbatim>\<open>sed\<close>
  is not run), the five argument values are valid UTF-8, and both shells are there and,
  as the bootstrap leaves them, valid UTF-8. With a credential, each of the two requests
  leaves one line on the output: a warning with the text of the exception when the
  request failed (network error, error status, malformed body, no image data), a
  confirmation otherwise. Without a credential no request is made and no warning is
  printed.
\<close>

theorem C5_generation_failure_is_a_warning:
  assumes "read_opts args = Inr x"
    and "sed_plain (DOMAIN x) \<and> sed_plain (BRAND x) \<or> \<not> sed_is_run w st"
    and "list_all utf8 [DOMAIN x, BRAND x, TOPIC x, SPEED x, SUBSCRIBE_EMAIL x]"
    and "files st home_shell = Some home" and "files st blog_shell = Some blog"
    and "utf8 (bootstrap_file w (DOMAIN x) (BRAND x) home_shell home)"
    and "utf8 (bootstrap_file w (DOMAIN x) (BRAND x) blog_shell blog)"
  shows "\<exists>st'. init_blog w args st = Completed st'
           \<and> stdout st' =
               stdout st
               @ [''Bootstrap done for domain='' @ DOMAIN x @ '' brand='' @ BRAND x]
               @ (if api_key w = [] then []
                  else [case gen (logo_response w) of
                          Inl ex \<Rightarrow> ''[warn] logo generation failed: '' @ show_exn ex
                        | Inr img \<Rightarrow> ''[ok] logo generated'',
                        case gen (hero_response w) of
                          Inl ex \<Rightarrow> ''[warn] hero generation failed: '' @ show_exn ex
                        | Inr img \<Rightarrow> ''[ok] hero generated''])
               @ [''[ok] html placeholders applied'',
                  ''Init completed: '' @ DOMAIN x @ '' ('' @ BRAND x @ '')'']"
  using assms by (rule init_blog_completes)

theorem C5_witness:
  "read_opts example_args = Inr example_opts
   \<and> (sed_plain (DOMAIN example_opts) \<and> sed_plain (BRAND example_opts)
        \<or> \<not> sed_is_run failing_service shell_site)
   \<and> list_all utf8 [DOMAIN example_opts, BRAND example_opts, TOPIC example_opts,
        SPEED example_opts, SUBSCRIBE_EMAIL example_opts]
   \<and> files shell_site home_shell = Some shell_home
   \<and> files shell_site blog_shell = Some shell_blog
   \<and> utf8 (bootstrap_file failing_service (DOMAIN example_opts) (BRAND example_opts)
              home_shell shell_home)
   \<and> utf8 (bootstrap_file failing_service (DOMAIN example_opts) (BRAND example_opts)
              blog_shell shell_blog)
   \<and> (\<exists>st'. init_blog failing_service example_args shell_site = Completed st'
          \<and> stdout st' =
              [''Bootstrap done for domain=example.com brand=Example Co'',
               ''[warn] logo generation failed: HTTP Error 503: Service Unavailable'',
               ''[warn] hero generation failed: No image in Gemini response'',
               ''[ok] html placeholders applied'',
               ''Init completed: example.com (Example Co)''])"
proof -
  have p: "sed_plain (DOMAIN example_opts) \<and> sed_plain (BRAND example_opts)
             \<or> \<not> sed_is_run failing_service shell_site"
    using sed_plain_example by (rule disjI1)
  have h: "files shell_site home_shell = Some shell_home"
    "files shell_site blog_shell = Some shell_blog"
    by code_simp+
  have u: "utf8 (bootstrap_file failing_service (DOMAIN example_opts) (BRAND example_opts)
              home_shell shell_home)"
    "utf8 (bootstrap_file failing_service (DOMAIN example_opts) (BRAND example_opts)
              blog_shell shell_blog)"
    by code_simp+
  have e: "stdout shell_site
      @ [''Bootstrap done for domain='' @ DOMAIN example_opts @ '' brand='' @ BRAND example_opts]
      @ (if api_key failing_service = [] then []
         else [case gen (logo_response failing_service) of
                 Inl ex \<Rightarrow> ''[warn] logo generation failed: '' @ show_exn ex
               | Inr img \<Rightarrow> ''[ok] logo generated'',
               case gen (hero_response failing_service) of
                 Inl ex \<Rightarrow> ''[warn] hero generation failed: '' @ show_exn ex
               | Inr img \<Rightarrow> ''[ok] hero generated''])
      @ [''[ok] html placeholders applied'',
         ''Init completed: '' @ DOMAIN example_opts @ '' ('' @ BRAND example_opts @ '')'']
    = [''Bootstrap done for domain=example.com brand=Example Co'',
       ''[warn] logo generation failed: HTTP Error 503: Service Unavailable'',
       ''[warn] hero generation failed: No image in Gemini response'',
       ''[ok] html placeholders applied'',
       ''Init completed: example.com (Example Co)'']"
    by code_simp
  from C5_generation_failure_is_a_warning
    [OF read_opts_example p values_example h u]
  have "\<exists>st'. init_blog failing_service example_args shell_site = Completed st'
          \<and> stdout st' =
              [''Bootstrap done for domain=example.com brand=Example Co'',
               ''[warn] logo generation failed: HTTP Error 503: Service Unavailable'',
               ''[warn] hero generation failed: No image in Gemini response'',
               ''[ok] html placeholders applied'',
               ''Init completed: example.com (Example Co)'']"
    unfolding e .
  with read_opts_example p values_example h u show ?thesis
    by (intro conjI)
qed

text \<open>
  C5 as stated fails in one case: without a credential the request is skipped and no
  warning is printed.
\<close>

theorem C5_counterexample:
  "api_key no_credentials = []
   \<and> (case init_blog no_credentials example_args shell_site of
         Completed st' \<Rightarrow> stdout st'
       | Aborted err st' \<Rightarrow> []
       | OutsideModel \<Rightarrow> [])
      = [''Bootstrap done for domain=example.com brand=Example Co'',
         ''[ok] html placeholders applied'',
         ''Init completed: example.com (Example Co)'']"
  by code_simp

lemma read_opts_slash: "read_opts slash_args = Inr slash_opts"
  by code_simp

text \<open>In a directory that holds only a logo, \<^verbatim>\<open>sed\<close> is not run.\<close>

lemma logo_site_not_listed: "\<not> sed_is_run w logo_site"
proof
  assume "sed_is_run w logo_site"
  then obtain p s where f: "files logo_site p = Some s" and l: "listed w p s"
    by (rule sed_is_run.cases) simp
  from f have "p = ''logo.png''"
    by (simp add: logo_site_def split: if_splits)
  moreover have "\<not> bootstrap_glob ''logo.png''"
    by code_simp
  ultimately show False
    using l by (simp add: listed_def)
qed

text \<open>
  C3 (as amended). If either shell is missing, and the bootstrap runs to its end (the
  domain and the brand hold no slash, backslash or newline, or no file holds a legacy
  string, so that \<^verbatim>\<open>sed\<close> is not run), the run ends with \<^verbatim>\<open>SystemExit\<close> before any
  page is written: at that point every file other than the four asset files holds what
  the bootstrap replacement left in it (a file that was absent is absent). The asset
  files may have been written by the provisioner, which runs before the check.
\<close>

theorem C3_missing_shell_aborts_before_pages:
  assumes "read_opts args = Inr x"
    and "sed_plain (DOMAIN x) \<and> sed_plain (BRAND x) \<or> \<not> sed_is_run w st"
    and "files st home_shell = None \<or> files st blog_shell = None"
  shows "\<exists>msg st'. init_blog w args st = Aborted (SystemExit msg) st'
           \<and> (\<forall>p. p \<notin> {LOGO_FILE (BRAND x), HERO_FILE (BRAND x), ''logo.png'', ''hero_ai.jpg''}
                  \<longrightarrow> files st' p
                      = map_option (bootstrap_file w (DOMAIN x) (BRAND x) p) (files st p))"
proof -
  let ?sb = "bootstrapped w (DOMAIN x) (BRAND x) st"
  have "files ?sb home_shell = None \<or> files ?sb blog_shell = None"
    using assms(3) by (simp add: files_bootstrapped)
  then have "\<exists>msg. python_main w (export_env x) ?sb
          = Aborted (SystemExit msg) (provision_assets w (export_env x) ?sb)"
    by (rule python_main_Aborted)
  then obtain msg where
    m: "python_main w (export_env x) ?sb
          = Aborted (SystemExit msg) (provision_assets w (export_env x) ?sb)" ..
  have "files (provision_assets w (export_env x) ?sb) p
          = map_option (bootstrap_file w (DOMAIN x) (BRAND x) p) (files st p)"
    if "p \<notin> {LOGO_FILE (BRAND x), HERO_FILE (BRAND x), ''logo.png'', ''hero_ai.jpg''}" for p
  proof -
    have "files (provision_assets w (export_env x) ?sb) p = files ?sb p"
      using that by (intro provision_assets_frame) (simp_all add: export_env_fields)
    then show ?thesis by (simp add: files_bootstrapped)
  qed
  then show ?thesis
    unfolding init_blog_python [OF assms(1,2)] m by simp
qed

theorem C3_witness:
  "read_opts slash_args = Inr slash_opts
   \<and> \<not> sed_plain (DOMAIN slash_opts)
   \<and> \<not> sed_is_run no_credentials logo_site
   \<and> files logo_site home_shell = None
   \<and> (\<exists>msg st'. init_blog no_credentials slash_args logo_site = Aborted (SystemExit msg) st'
          \<and> files st' ''index.html'' = None
          \<and> files st' ''policy/privacy/index.html'' = None)"
proof -
  have d: "\<not> sed_plain (DOMAIN slash_opts)"
    by code_simp
  have r: "\<not> sed_is_run no_credentials logo_site"
    by (rule logo_site_not_listed)
  then have p: "sed_plain (DOMAIN slash_opts) \<and> sed_plain (BRAND slash_opts)
                  \<or> \<not> sed_is_run no_credentials logo_site" ..
  have h: "files logo_site home_shell = None"
    by code_simp
  then have h': "files logo_site home_shell = None \<or> files logo_site blog_shell = None" ..
  have n: "''index.html'' \<notin> {LOGO_FILE (BRAND slash_opts), HERO_FILE (BRAND slash_opts),
             ''logo.png'', ''hero_ai.jpg''}"
     "''policy/privacy/index.html'' \<notin> {LOGO_FILE (BRAND slash_opts),
             HERO_FILE (BRAND slash_opts), ''logo.png'', ''hero_ai.jpg''}"
    by (simp_all add: LOGO_FILE_def HERO_FILE_def)
  have f: "files logo_site ''index.html'' = None"
    "files logo_site ''policy/privacy/index.html'' = None"
    by (simp_all add: logo_site_def)
  from C3_missing_shell_aborts_before_pages [OF read_opts_slash p h']
  obtain msg st' where
    a: "init_blog no_credentials slash_args logo_site = Aborted (SystemExit msg) st'"
    and b: "\<forall>p. p \<notin> {LOGO_FILE (BRAND slash_opts), HERO_FILE (BRAND slash_opts),
                       ''logo.png'', ''hero_ai.jpg''}
              \<longrightarrow> files st' p
                  = map_option (bootstrap_file no_credentials (DOMAIN slash_opts)
                      (BRAND slash_opts) p) (files logo_site p)"
    by (elim exE conjE)
  from b n f have "files st' ''index.html'' = None" "files st' ''policy/privacy/index.html'' = None"
    by simp_all
  with a have "\<exists>msg st'. init_blog no_credentials slash_args logo_site = Aborted (SystemExit msg) st'
          \<and> files st' ''index.html'' = None
          \<and> files st' ''policy/privacy/index.html'' = None"
    by (intro exI conjI)
  with read_opts_slash d r h show ?thesis
    by (intro conjI)
qed

text \<open>
  C3 as stated fails: with only \<^verbatim>\<open>logo.png\<close> in the directory the run ends at the
  check of the shells, and by then the provisioner has written the brand-specific logo.
\<close>

theorem C3_counterexample:
  "files logo_site ''logo-example-co.png'' = None
   \<and> (case init_blog no_credentials example_args logo_site of
         Completed st' \<Rightarrow> None
       | Aborted err st' \<Rightarrow> Some (err, files st' ''logo-example-co.png'')
       | OutsideModel \<Rightarrow> None)
      = Some (SystemExit ''Missing universal_blog_shell.html in project root'', Some ''old logo'')"
  by code_simp

subsection \<open>Animation speed\<close>

text \<open>The older script clamps the speed it writes into \<^verbatim>\<open>theme.config.js\<close>.\<close>

lemma animationSpeedSec_clamps:
  "8 \<le> animationSpeedSec n" "animationSpeedSec n \<le> 60"
  "animationSpeedSec 5 = 8" "animationSpeedSec 999 = 60"
  "8 \<le> n \<and> n \<le> 60 \<longrightarrow> animationSpeedSec n = n"
  by (simp_all add: animationSpeedSec_def)

text \<open>
  C2. The speed that \<^verbatim>\<open>init-blog.sh\<close> substitutes for \<^verbatim>\<open>__ANIM_SPEED__\<close> is the
  argument of \<^verbatim>\<open>--speed\<close> as it was given: an input of 5 is written as 5, where the
  claim (and the older script's \<^verbatim>\<open>animationSpeedSec\<close>) gives 8.
\<close>

theorem C2_speed_substituted_unclamped:
  "(case read_opts (example_args @ [''--speed'', ''5'']) of
      Inl err \<Rightarrow> None
    | Inr x \<Rightarrow>
        Some (INIT_SPEED (export_env x),
              substitute_text (export_env x) ''animation: drift __ANIM_SPEED__s linear''))
   = Some (''5'', ''animation: drift 5s linear'')
   \<and> animationSpeedSec 5 = 8"
  by code_simp

subsection \<open>Policy pages\<close>

lemma sublist_in_right: "sublist x zs \<Longrightarrow> sublist x (ys @ zs) = True"
  by (simp add: sublist_append)

lemma sublist_at_front: "sublist d (d @ r) = True" "sublist (a @ d) (a @ d @ r) = True"
proof -
  show "sublist d (d @ r) = True" by simp
  have "sublist (a @ d) ((a @ d) @ r)" by (rule sublist_append_rightI)
  then show "sublist (a @ d) (a @ d @ r) = True" by simp
qed

lemma sublist_page_body:
  assumes "sublist x body_html"
  shows "sublist x (page e title body_html)"
proof -
  have "sublist x (body_html @ r) = True" for r
    using assms by (simp add: sublist_append)
  then show ?thesis
    by (simp only: page_def sublist_in_right)
qed

lemma mail_link_split:
  \<open>''<p>If you have questions, contact <a class="btn" href="mailto:info@''
     = ''<p>If you have questions, contact <a class="btn" href="'' @ ''mailto:info@''\<close>
  \<open>''<p>Contact: <a class="btn" href="mailto:info@''
     = ''<p>Contact: <a class="btn" href="'' @ ''mailto:info@''\<close>
  \<open>''<p>For billing questions, email <a class="btn" href="mailto:info@''
     = ''<p>For billing questions, email <a class="btn" href="'' @ ''mailto:info@''\<close>
  by simp_all

lemma policy_pages_mailto:
  "sublist (''mailto:info@'' @ INIT_DOMAIN e) (privacy_page e)"
  "sublist (''mailto:info@'' @ INIT_DOMAIN e) (terms_page e)"
  "sublist (''mailto:info@'' @ INIT_DOMAIN e) (refund_page e)"
  unfolding privacy_page_def terms_page_def refund_page_def
  by (rule sublist_page_body,
      simp only: mail_link_split append_assoc sublist_in_right sublist_at_front)+

lemma policy_pages_domain:
  "sublist (INIT_DOMAIN e) (privacy_page e)"
  "sublist (INIT_DOMAIN e) (terms_page e)"
  "sublist (INIT_DOMAIN e) (refund_page e)"
  by (rule sublist_trans [OF _ policy_pages_mailto(1)] sublist_trans [OF _ policy_pages_mailto(2)]
      sublist_trans [OF _ policy_pages_mailto(3)], rule sublist_append_leftI)+

lemma files_write_policy_pages:
  "files (write_policy_pages e st) ''policy/privacy/index.html'' = Some (privacy_page e)"
  "files (write_policy_pages e st) ''policy/terms/index.html'' = Some (terms_page e)"
  "files (write_policy_pages e st) ''policy/refund/index.html'' = Some (refund_page e)"
  by (simp_all add: write_policy_pages_def pages_def write_file_def)

lemma files_patch:
  "p \<noteq> path \<Longrightarrow> files (patch_blog_template_palette w e path st) p = files st p"
  by (simp add: patch_blog_template_palette_def write_file_def split: option.splits)

lemma files_transparent_logo:
  "p \<noteq> f \<Longrightarrow> p \<noteq> ''logo.png'' \<Longrightarrow> files (transparent_logo w f st) p = files st p"
  by (simp add: transparent_logo_def Let_def files_copy_if_exists write_file_def
      split: option.splits)

text \<open>A completed run, written out: the bootstrap ran to its end, both shells were there
  and readable, the values could be written, and the final state is the composition of
  the steps.\<close>

lemma bootstrap_template_Completed_iff:
  assumes "bootstrap_template w domain brand st = Completed s"
  shows "s = bootstrapped w domain brand st"
    and "sed_plain domain \<and> sed_plain brand \<or> \<not> sed_is_run w st"
  using assms by (simp_all add: bootstrap_template_def split: if_splits)

lemma python_main_Completed_iff:
  assumes "python_main w e st = Completed s"
  shows "\<exists>home blog.
           files (provision_assets w e st) home_shell = Some home
           \<and> files (provision_assets w e st) blog_shell = Some blog
           \<and> utf8 home \<and> utf8 blog \<and> values_utf8 e
           \<and> s = print ''[ok] html placeholders applied''
                   (patch_blog_template_palette w e ''blog/template.html''
                     (write_policy_pages e
                       (page_materializer e home blog (provision_assets w e st))))"
  using assms
  by (simp add: python_main_def Let_def split: option.splits if_splits)

lemma init_blog_Completed:
  assumes "read_opts args = Inr x" and "init_blog w args st = Completed st'"
  shows "\<exists>home blog.
           files st home_shell = Some home \<and> files st blog_shell = Some blog
           \<and> utf8 (bootstrap_file w (DOMAIN x) (BRAND x) home_shell home)
           \<and> utf8 (bootstrap_file w (DOMAIN x) (BRAND x) blog_shell blog)
           \<and> values_utf8 (export_env x)
           \<and> st' = after_run w x
                      (bootstrap_file w (DOMAIN x) (BRAND x) home_shell home)
                      (bootstrap_file w (DOMAIN x) (BRAND x) blog_shell blog) st"
proof -
  let ?sb = "bootstrapped w (DOMAIN x) (BRAND x) st"
  from assms obtain s1 where b: "bootstrap_template w (DOMAIN x) (BRAND x) st = Completed s1"
    by (cases "bootstrap_template w (DOMAIN x) (BRAND x) st") (simp_all add: init_blog_def)
  then have s1: "s1 = ?sb"
    by (rule bootstrap_template_Completed_iff)
  from assms b obtain s2 where p: "python_main w (export_env x) s1 = Completed s2"
    and f: "st' = print (''Init completed: '' @ DOMAIN x @ '' ('' @ BRAND x @ '')'')
                    (transparent_logo w (LOGO_FILE (BRAND x)) s2)"
    by (cases "python_main w (export_env x) s1") (simp_all add: init_blog_def)
  from python_main_Completed_iff [OF p] obtain home' blog' where
    h: "files (provision_assets w (export_env x) s1) home_shell = Some home'"
    and g: "files (provision_assets w (export_env x) s1) blog_shell = Some blog'"
    and u: "utf8 home'" "utf8 blog'" "values_utf8 (export_env x)"
    and s2: "s2 = print ''[ok] html placeholders applied''
                   (patch_blog_template_palette w (export_env x) ''blog/template.html''
                     (write_policy_pages (export_env x)
                       (page_materializer (export_env x) home' blog'
                          (provision_assets w (export_env x) s1))))"
    by (elim exE conjE)
  from h have "map_option (bootstrap_file w (DOMAIN x) (BRAND x) home_shell) (files st home_shell)
                 = Some home'"
    by (simp add: provision_assets_shells s1 files_bootstrapped)
  then obtain home where h1: "files st home_shell = Some home"
    and h2: "home' = bootstrap_file w (DOMAIN x) (BRAND x) home_shell home"
    by (cases "files st home_shell") simp_all
  from g have "map_option (bootstrap_file w (DOMAIN x) (BRAND x) blog_shell) (files st blog_shell)
                 = Some blog'"
    by (simp add: provision_assets_shells s1 files_bootstrapped)
  then obtain blog where g1: "files st blog_shell = Some blog"
    and g2: "blog' = bootstrap_file w (DOMAIN x) (BRAND x) blog_shell blog"
    by (cases "files st blog_shell") simp_all
  have "st' = after_run w x home' blog' st"
    unfolding f s2 s1 after_run_def ..
  with h1 g1 u show ?thesis
    unfolding h2 g2 by (intro exI conjI)
qed

lemma policy_paths_distinct:
  "''policy/privacy/index.html'' \<noteq> LOGO_FILE b" "''policy/terms/index.html'' \<noteq> LOGO_FILE b"
  "''policy/refund/index.html'' \<noteq> LOGO_FILE b"
  by (simp_all add: LOGO_FILE_def)

lemma after_run_policy_pages:
  "files (after_run w x home blog st) ''policy/privacy/index.html''
     = Some (privacy_page (export_env x))"
  "files (after_run w x home blog st) ''policy/terms/index.html''
     = Some (terms_page (export_env x))"
  "files (after_run w x home blog st) ''policy/refund/index.html''
     = Some (refund_page (export_env x))"
  by (simp_all add: after_run_def files_print files_transparent_logo files_patch
      files_write_policy_pages policy_paths_distinct)

lemma init_blog_policy_pages:
  assumes "read_opts args = Inr x" and "init_blog w args st = Completed st'"
  shows "files st' ''policy/privacy/index.html'' = Some (privacy_page (export_env x))"
    and "files st' ''policy/terms/index.html'' = Some (terms_page (export_env x))"
    and "files st' ''policy/refund/index.html'' = Some (refund_page (export_env x))"
proof -
  from init_blog_Completed [OF assms] obtain home blog where
    s: "st' = after_run w x home blog st"
    by (elim exE conjE)
  show "files st' ''policy/privacy/index.html'' = Some (privacy_page (export_env x))"
    unfolding s by (rule after_run_policy_pages)
  show "files st' ''policy/terms/index.html'' = Some (terms_page (export_env x))"
    unfolding s by (rule after_run_policy_pages)
  show "files st' ''policy/refund/index.html'' = Some (refund_page (export_env x))"
    unfolding s by (rule after_run_policy_pages)
qed

text \<open>
  C9. After a completed run for the domain \<open>example.com\<close> and the brand
  \<open>Example Co\<close>, each of the three policy pages is there and contains
  \<open>example.com\<close> and \<open>mailto:info@example.com\<close>.
\<close>

theorem C9_policy_pages_name_the_domain:
  assumes "read_opts args = Inr x" and "DOMAIN x = ''example.com''"
    and "BRAND x = ''Example Co''" and "init_blog w args st = Completed st'"
  shows "(\<exists>html. files st' ''policy/privacy/index.html'' = Some html
            \<and> sublist ''example.com'' html \<and> sublist ''mailto:info@example.com'' html)
       \<and> (\<exists>html. files st' ''policy/terms/index.html'' = Some html
            \<and> sublist ''example.com'' html \<and> sublist ''mailto:info@example.com'' html)
       \<and> (\<exists>html. files st' ''policy/refund/index.html'' = Some html
            \<and> sublist ''example.com'' html \<and> sublist ''mailto:info@example.com'' html)"
proof -
  have d: "INIT_DOMAIN (export_env x) = ''example.com''"
    using assms(2) by (simp add: export_env_fields)
  have m: "''mailto:info@'' @ ''example.com'' = ''mailto:info@example.com''"
    by simp
  note f = init_blog_policy_pages [OF assms(1) assms(4)]
  note a = policy_pages_domain [of "export_env x", unfolded d]
  note b = policy_pages_mailto [of "export_env x", unfolded d m]
  show ?thesis
    using f a b by simp
qed

lemma shell_site_shells:
  "files shell_site home_shell = Some shell_home"
  "files shell_site blog_shell = Some shell_blog"
  by code_simp+

theorem C9_witness:
  "read_opts example_args = Inr example_opts
   \<and> DOMAIN example_opts = ''example.com'' \<and> BRAND example_opts = ''Example Co''
   \<and> (\<exists>st'. init_blog no_credentials example_args shell_site = Completed st'
         \<and> (\<exists>html. files st' ''policy/refund/index.html'' = Some html
               \<and> sublist ''example.com'' html \<and> sublist ''mailto:info@example.com'' html))"
proof -
  have p: "sed_plain (DOMAIN example_opts) \<and> sed_plain (BRAND example_opts)
             \<or> \<not> sed_is_run no_credentials shell_site"
    using sed_plain_example by (rule disjI1)
  have u: "utf8 (bootstrap_file no_credentials (DOMAIN example_opts) (BRAND example_opts)
              home_shell shell_home)"
    "utf8 (bootstrap_file no_credentials (DOMAIN example_opts) (BRAND example_opts)
              blog_shell shell_blog)"
    by code_simp+
  from init_blog_completes
    [OF read_opts_example p values_example shell_site_shells u]
  obtain st' where c: "init_blog no_credentials example_args shell_site = Completed st'"
    by (elim exE conjE)
  have e: "DOMAIN example_opts = ''example.com''" "BRAND example_opts = ''Example Co''"
    by (simp_all add: example_opts_def)
  from C9_policy_pages_name_the_domain [OF read_opts_example e c] c read_opts_example e
  show ?thesis by simp
qed

subsection \<open>Literal replacement\<close>

lemma overlap_iff:
  "overlap t v \<longleftrightarrow>
     sublist v t \<or> sublist t v
     \<or> (\<exists>p. p \<noteq> [] \<and> prefix p t \<and> suffix p v)
     \<or> (\<exists>p. p \<noteq> [] \<and> suffix p t \<and> prefix p v)"
proof -
  have 1: "list_ex (\<lambda>p. p \<noteq> [] \<and> suffix p v) (prefixes t)
             \<longleftrightarrow> (\<exists>p. p \<noteq> [] \<and> prefix p t \<and> suffix p v)"
    unfolding list_ex_iff in_set_prefixes Bex_def by (rule ex_cong1) (rule conj_left_commute)
  have 2: "list_ex (\<lambda>p. p \<noteq> [] \<and> prefix p v) (suffixes t)
             \<longleftrightarrow> (\<exists>p. p \<noteq> [] \<and> suffix p t \<and> prefix p v)"
    unfolding list_ex_iff in_set_suffixes Bex_def by (rule ex_cong1) (rule conj_left_commute)
  show ?thesis unfolding overlap_def 1 2 ..
qed

lemma overlapI:
  "sublist v t \<Longrightarrow> overlap t v"
  "sublist t v \<Longrightarrow> overlap t v"
  "p \<noteq> [] \<Longrightarrow> prefix p t \<Longrightarrow> suffix p v \<Longrightarrow> overlap t v"
  "p \<noteq> [] \<Longrightarrow> suffix p t \<Longrightarrow> prefix p v \<Longrightarrow> overlap t v"
proof -
  show "sublist v t \<Longrightarrow> overlap t v" unfolding overlap_iff by (rule disjI1)
  show "sublist t v \<Longrightarrow> overlap t v" unfolding overlap_iff by (rule disjI2, rule disjI1)
  show "p \<noteq> [] \<Longrightarrow> prefix p t \<Longrightarrow> suffix p v \<Longrightarrow> overlap t v"
    unfolding overlap_iff by (rule disjI2, rule disjI2, rule disjI1, rule exI [of _ p]) simp
  show "p \<noteq> [] \<Longrightarrow> suffix p t \<Longrightarrow> prefix p v \<Longrightarrow> overlap t v"
    unfolding overlap_iff by (rule disjI2, rule disjI2, rule disjI2, rule exI [of _ p]) simp
qed

text \<open>A beginning of the result is a beginning of the text, unless it reaches into an
  inserted value.\<close>

lemma str_replace_prefix:
  assumes "k \<noteq> []" and "prefix t (str_replace k v s)"
  shows "prefix t s \<or> sublist v t \<or> (\<exists>p. p \<noteq> [] \<and> suffix p t \<and> prefix p v)"
  using assms
proof (induction k v s arbitrary: t rule: str_replace.induct)
  case (1 old new)
  then show ?case by simp
next
  case (2 old new c cs)
  show ?case
  proof (cases "prefix old (c # cs)")
    case True
    with 2(4,5) have "prefix t (new @ str_replace old new (drop (length old) (c # cs)))"
      by simp
    then have "prefix t new \<or> (\<exists>us. t = new @ us)"
      unfolding prefix_append by (elim disjE exE conjE) (simp_all)
    then show ?thesis
    proof
      assume p: "prefix t new"
      show ?thesis
      proof (cases "t = []")
        case True
        then show ?thesis by simp
      next
        case False
        then have "t \<noteq> [] \<and> suffix t t \<and> prefix t new" using p by simp
        then have "\<exists>p. p \<noteq> [] \<and> suffix p t \<and> prefix p new" by (rule exI)
        then show ?thesis by simp
      qed
    next
      assume "\<exists>us. t = new @ us"
      then obtain us where "t = new @ us" ..
      then have "sublist new t" by simp
      then show ?thesis by simp
    qed
  next
    case False
    with 2(4,5) have p: "prefix t (c # str_replace old new cs)" by simp
    show ?thesis
    proof (cases t)
      case Nil
      then show ?thesis by simp
    next
      case (Cons a t')
      with p have a: "a = c" and p': "prefix t' (str_replace old new cs)" by simp_all
      from 2(3) [OF 2(4) False 2(4) p']
      show ?thesis
      proof (elim disjE exE conjE)
        assume "prefix t' cs"
        then show ?thesis using Cons a by simp
      next
        assume "sublist new t'"
        then have "sublist new (a # t')" by (simp add: sublist_Cons_right)
        then show ?thesis using Cons by simp
      next
        fix p assume "p \<noteq> []" "suffix p t'" "prefix p new"
        then have "p \<noteq> [] \<and> suffix p (a # t') \<and> prefix p new"
          by (simp add: suffix_ConsI)
        then have "\<exists>p. p \<noteq> [] \<and> suffix p (a # t') \<and> prefix p new" by (rule exI)
        then show ?thesis using Cons by simp
      qed
    qed
  qed
qed

lemma str_replace_prefix_overlap:
  assumes "k \<noteq> []" and "prefix t (str_replace k v s)"
  shows "prefix t s \<or> overlap t v"
proof -
  from str_replace_prefix [OF assms]
  show ?thesis
  proof (elim disjE exE conjE)
    assume "prefix t s" then show ?thesis ..
  next
    assume "sublist v t"
    then have "overlap t v" by (rule overlapI(1))
    then show ?thesis ..
  next
    fix p assume "p \<noteq> []" "suffix p t" "prefix p v"
    then have "overlap t v" by (rule overlapI(4))
    then show ?thesis ..
  qed
qed

text \<open>What lies across the seam between an inserted value and the rest.\<close>

lemma sublist_value_rest:
  assumes "sublist t (v @ r)"
  shows "sublist t r \<or> overlap t v"
proof -
  from assms have "sublist t v \<or> sublist t r
      \<or> (\<exists>t1 t2. t = t1 @ t2 \<and> suffix t1 v \<and> prefix t2 r)"
    by (simp only: sublist_append)
  then show ?thesis
  proof (elim disjE exE conjE)
    assume "sublist t v"
    then have "overlap t v" by (rule overlapI(2))
    then show ?thesis ..
  next
    assume "sublist t r" then show ?thesis ..
  next
    fix t1 t2 assume t: "t = t1 @ t2" and s: "suffix t1 v" and p: "prefix t2 r"
    show ?thesis
    proof (cases "t1 = []")
      case True
      with t p have "prefix t r" by simp
      then have "sublist t r" by (rule prefix_imp_sublist)
      then show ?thesis ..
    next
      case False
      moreover have "prefix t1 t" using t by simp
      ultimately have "overlap t v" using s by (rule overlapI(3))
      then show ?thesis ..
    qed
  qed
qed

text \<open>An occurrence of \<open>t\<close> in the result was in the text, or overlaps the value.\<close>

lemma str_replace_sublist:
  assumes "k \<noteq> []" and "sublist t (str_replace k v s)"
  shows "sublist t s \<or> overlap t v"
  using assms
proof (induction k v s arbitrary: t rule: str_replace.induct)
  case (1 old new)
  then show ?case by simp
next
  case (2 old new c cs)
  show ?case
  proof (cases "prefix old (c # cs)")
    case True
    with 2(4,5) have "sublist t (new @ str_replace old new (drop (length old) (c # cs)))"
      by simp
    then have "sublist t (str_replace old new (drop (length old) (c # cs))) \<or> overlap t new"
      by (rule sublist_value_rest)
    then show ?thesis
    proof
      assume "sublist t (str_replace old new (drop (length old) (c # cs)))"
      from 2(2) [OF 2(4) True 2(4) this]
      show ?thesis
      proof
        assume "sublist t (drop (length old) (c # cs))"
        then have "sublist t (c # cs)"
          by (rule sublist_trans [OF _ sublist_drop])
        then show ?thesis ..
      next
        assume "overlap t new" then show ?thesis ..
      qed
    next
      assume "overlap t new" then show ?thesis ..
    qed
  next
    case False
    with 2(4,5) have "sublist t (c # str_replace old new cs)" by simp
    then have "prefix t (c # str_replace old new cs) \<or> sublist t (str_replace old new cs)"
      by (simp only: sublist_Cons_right)
    then show ?thesis
    proof
      assume "prefix t (c # str_replace old new cs)"
      then have "prefix t (str_replace old new (c # cs))" using False 2(4) by simp
      from str_replace_prefix_overlap [OF 2(4) this]
      show ?thesis
      proof
        assume "prefix t (c # cs)"
        then have "sublist t (c # cs)" by (rule prefix_imp_sublist)
        then show ?thesis ..
      next
        assume "overlap t new" then show ?thesis ..
      qed
    next
      assume "sublist t (str_replace old new cs)"
      from 2(3) [OF 2(4) False 2(4) this]
      show ?thesis
      proof
        assume "sublist t cs"
        then have "sublist t (c # cs)" by (simp add: sublist_Cons_right)
        then show ?thesis ..
      next
        assume "overlap t new" then show ?thesis ..
      qed
    qed
  qed
qed

text \<open>After the replacement the key is gone, when the value does not overlap it.\<close>

lemma str_replace_removes:
  assumes "k \<noteq> []" and "\<not> overlap k v"
  shows "\<not> sublist k (str_replace k v s)"
  using assms
proof (induction k v s rule: str_replace.induct)
  case (1 old new)
  then show ?case by simp
next
  case (2 old new c cs)
  show ?case
  proof (cases "prefix old (c # cs)")
    case True
    show ?thesis
    proof
      assume "sublist old (str_replace old new (c # cs))"
      with True 2(4) have "sublist old (new @ str_replace old new (drop (length old) (c # cs)))"
        by simp
      then have "sublist old (str_replace old new (drop (length old) (c # cs))) \<or> overlap old new"
        by (rule sublist_value_rest)
      then show False
        using 2(2) [OF 2(4) True 2(4) 2(5)] 2(5) by simp
    qed
  next
    case False
    show ?thesis
    proof
      assume "sublist old (str_replace old new (c # cs))"
      then have "prefix old (str_replace old new (c # cs)) \<or> sublist old (str_replace old new cs)"
        using False 2(4) by (simp add: sublist_Cons_right)
      then show False
      proof
        assume "prefix old (str_replace old new (c # cs))"
        from str_replace_prefix_overlap [OF 2(4) this]
        show False using False 2(5) by simp
      next
        assume "sublist old (str_replace old new cs)"
        then show False using 2(3) [OF 2(4) False 2(4) 2(5)] by simp
      qed
    qed
  qed
qed

text \<open>A text without the key is left as it is.\<close>

lemma str_replace_absent:
  assumes "k \<noteq> []" and "\<not> sublist k s"
  shows "str_replace k v s = s"
  using assms
proof (induction k v s rule: str_replace.induct)
  case (1 old new)
  then show ?case by simp
next
  case (2 old new c cs)
  have np: "\<not> prefix old (c # cs)"
  proof
    assume "prefix old (c # cs)"
    then have "sublist old (c # cs)" by (rule prefix_imp_sublist)
    with 2(5) show False ..
  qed
  have "\<not> sublist old cs"
  proof
    assume "sublist old cs"
    then have "sublist old (c # cs)" by (simp add: sublist_Cons_right)
    with 2(5) show False ..
  qed
  from 2(3) [OF 2(4) np 2(4) this] np 2(4)
  show ?case by simp
qed

subsection \<open>The substitution pass\<close>

lemma replace_all_Cons: "replace_all ((k, v) # kvs) s = replace_all kvs (str_replace k v s)"
  by (simp add: replace_all_def)

lemma replace_all_Nil: "replace_all [] s = s"
  by (simp add: replace_all_def)

text \<open>
  A word that is absent, or that is one of the keys, is absent after the pass, when no
  value overlaps it.
\<close>

lemma replace_all_removes:
  assumes "list_all (\<lambda>(k, v). k \<noteq> [] \<and> \<not> overlap t v) kvs"
    and "\<not> sublist t s \<or> t \<in> fst ` set kvs"
  shows "\<not> sublist t (replace_all kvs s)"
  using assms
proof (induction kvs arbitrary: s)
  case Nil
  then show ?case by (simp add: replace_all_Nil)
next
  case (Cons kv kvs)
  obtain k v where kv: "kv = (k, v)" by (cases kv)
  from Cons(2) kv have k: "k \<noteq> []" and o: "\<not> overlap t v"
    and rest: "list_all (\<lambda>(k, v). k \<noteq> [] \<and> \<not> overlap t v) kvs"
    by simp_all
  have "\<not> sublist t (str_replace k v s) \<or> t \<in> fst ` set kvs"
  proof (cases "sublist t s")
    case False
    have "\<not> sublist t (str_replace k v s)"
    proof
      assume "sublist t (str_replace k v s)"
      from str_replace_sublist [OF k this] False o show False by simp
    qed
    then show ?thesis ..
  next
    case True
    with Cons(3) kv have "t = k \<or> t \<in> fst ` set kvs" by simp
    then show ?thesis
    proof
      assume "t = k"
      with str_replace_removes [OF k, of v s] o have "\<not> sublist t (str_replace k v s)"
        by simp
      then show ?thesis ..
    next
      assume "t \<in> fst ` set kvs" then show ?thesis ..
    qed
  qed
  from Cons(1) [OF rest this] show ?case
    unfolding kv replace_all_Cons .
qed

lemma replace_all_absent:
  assumes "list_all (\<lambda>(k, v). k \<noteq> [] \<and> \<not> sublist k s) kvs"
  shows "replace_all kvs s = s"
  using assms
proof (induction kvs)
  case Nil
  then show ?case by (simp add: replace_all_Nil)
next
  case (Cons kv kvs)
  obtain k v where kv: "kv = (k, v)" by (cases kv)
  from Cons(2) kv have k: "k \<noteq> []" "\<not> sublist k s"
    and rest: "list_all (\<lambda>(k, v). k \<noteq> [] \<and> \<not> sublist k s) kvs"
    by simp_all
  show ?case
    unfolding kv replace_all_Cons str_replace_absent [OF k] by (rule Cons(1) [OF rest])
qed

lemma repl_keys: "map fst (repl e) = placeholders"
  by (simp add: repl_def placeholders_def)

text \<open>The placeholders begin and end with an underscore.\<close>

lemma placeholder_shape:
  assumes "t \<in> set placeholders"
  shows "t \<noteq> [] \<and> hd t = CHR ''_'' \<and> last t = CHR ''_''"
proof -
  have "list_all (\<lambda>t. t \<noteq> [] \<and> hd t = CHR ''_'' \<and> last t = CHR ''_'') placeholders"
    by (simp add: placeholders_def)
  with assms show ?thesis unfolding list_all_iff by (rule bspec [rotated])
qed

lemma no_overlap_by_ends:
  assumes "t \<noteq> []" and "hd t \<notin> set v" and "last t \<notin> set v" and "\<not> sublist v t"
  shows "\<not> overlap t v"
proof
  assume "overlap t v"
  then have "sublist v t \<or> sublist t v
     \<or> (\<exists>p. p \<noteq> [] \<and> prefix p t \<and> suffix p v)
     \<or> (\<exists>p. p \<noteq> [] \<and> suffix p t \<and> prefix p v)"
    by (simp only: overlap_iff)
  then show False
  proof (elim disjE exE conjE)
    assume "sublist v t" with assms(4) show False ..
  next
    assume "sublist t v"
    moreover have "hd t \<in> set t" using assms(1) by simp
    ultimately have "hd t \<in> set v" by (rule sublist_mem)
    with assms(2) show False ..
  next
    fix p assume p: "p \<noteq> []" "prefix p t" "suffix p v"
    from p(1,2) have "hd p = hd t" by (auto simp: prefix_def)
    moreover have "hd p \<in> set p" using p(1) by simp
    moreover have "set p \<subseteq> set v" using p(3) by (rule set_mono_suffix)
    ultimately have "hd t \<in> set v" by auto
    with assms(2) show False ..
  next
    fix p assume p: "p \<noteq> []" "suffix p t" "prefix p v"
    from p(1,2) have "last p = last t" by (auto simp: suffix_def)
    moreover have "last p \<in> set p" using p(1) by simp
    moreover have "set p \<subseteq> set v" using p(3) by (rule set_mono_prefix)
    ultimately have "last t \<in> set v" by auto
    with assms(3) show False ..
  qed
qed

lemma clean_value_no_overlap:
  assumes "clean_value v" and "t \<in> set placeholders"
  shows "\<not> overlap t v"
proof -
  from assms(1) have u: "CHR ''_'' \<notin> set v"
    and "list_all (\<lambda>t. \<not> sublist v t) placeholders"
    by (simp_all add: clean_value_def)
  then have n: "\<not> sublist v t" using assms(2) unfolding list_all_iff by simp
  from placeholder_shape [OF assms(2)] u n show ?thesis
    by (intro no_overlap_by_ends) simp_all
qed

text \<open>Values that are clean by their letters: no underscore, and a character that no
  placeholder has.\<close>

lemma clean_value_by_letter:
  assumes "CHR ''_'' \<notin> set v" and "c \<in> set v"
    and "list_all (\<lambda>t. c \<notin> set t) placeholders"
  shows "clean_value v"
proof -
  have "\<not> sublist v t" if "t \<in> set placeholders" for t
  proof -
    from assms(3) that have "c \<notin> set t" unfolding list_all_iff by simp
    with assms(2) show ?thesis by (rule not_sublist_notin)
  qed
  then show ?thesis
    using assms(1) unfolding clean_value_def list_all_iff by simp
qed

lemma letters_not_in_placeholders:
  "list_all (\<lambda>t. CHR ''.'' \<notin> set t) placeholders"
  "list_all (\<lambda>t. CHR '':'' \<notin> set t) placeholders"
  "list_all (\<lambda>t. CHR ''#'' \<notin> set t) placeholders"
  "list_all (\<lambda>t. CHR ''('' \<notin> set t) placeholders"
  by (simp_all add: placeholders_def)

lemma palette_clean:
  "clean_value (BG0 (topic_palette t))" "clean_value (BG1 (topic_palette t))"
  "clean_value (BG2 (topic_palette t))" "clean_value (ACCENT (topic_palette t))"
  "clean_value (ACCENT_HOVER (topic_palette t))" "clean_value (RAD1 (topic_palette t))"
  "clean_value (RAD2 (topic_palette t))" "clean_value (RAD3 (topic_palette t))"
proof -
  have w: "clean_value (BG0 wine_palette) \<and> clean_value (BG1 wine_palette)
    \<and> clean_value (BG2 wine_palette) \<and> clean_value (ACCENT wine_palette)
    \<and> clean_value (ACCENT_HOVER wine_palette) \<and> clean_value (RAD1 wine_palette)
    \<and> clean_value (RAD2 wine_palette) \<and> clean_value (RAD3 wine_palette)"
    by code_simp
  have d: "clean_value (BG0 default_palette) \<and> clean_value (BG1 default_palette)
    \<and> clean_value (BG2 default_palette) \<and> clean_value (ACCENT default_palette)
    \<and> clean_value (ACCENT_HOVER default_palette) \<and> clean_value (RAD1 default_palette)
    \<and> clean_value (RAD2 default_palette) \<and> clean_value (RAD3 default_palette)"
    by code_simp
  show "clean_value (BG0 (topic_palette t))" "clean_value (BG1 (topic_palette t))"
    "clean_value (BG2 (topic_palette t))" "clean_value (ACCENT (topic_palette t))"
    "clean_value (ACCENT_HOVER (topic_palette t))" "clean_value (RAD1 (topic_palette t))"
    "clean_value (RAD2 (topic_palette t))" "clean_value (RAD3 (topic_palette t))"
    using w d by (simp_all add: topic_palette_def)
qed

text \<open>The slug has no underscore: it is made of lower-case letters, digits, dashes (and
  newlines, when the brand has several lines).\<close>

lemma slug_char_not_underscore: "slug_char c \<noteq> CHR ''_''"
proof (cases "c \<in> set ''abcdefghijklmnopqrstuvwxyz0123456789''")
  case True
  then have "c \<noteq> CHR ''_''" by auto
  with True show ?thesis by (simp add: slug_char_def)
next
  case False
  then show ?thesis by (simp add: slug_char_def)
qed

lemma set_squeeze_dashes: "set (squeeze_dashes s) \<subseteq> set s"
  by (induction s rule: squeeze_dashes.induct) auto

lemma set_strip_leading_dash: "set (strip_leading_dash s) \<subseteq> set s"
  by (cases s) (auto simp: strip_leading_dash_def)

lemma set_strip_trailing_dash: "set (strip_trailing_dash s) \<subseteq> set s"
  by (auto simp: strip_trailing_dash_def dest: in_set_butlastD)

lemma slug_line_no_underscore: "CHR ''_'' \<notin> set (slug_line l)"
proof
  assume "CHR ''_'' \<in> set (slug_line l)"
  then have "CHR ''_'' \<in> set (strip_leading_dash (squeeze_dashes (map slug_char l)))"
    unfolding slug_line_def using set_strip_trailing_dash by (rule rev_subsetD)
  then have "CHR ''_'' \<in> set (squeeze_dashes (map slug_char l))"
    using set_strip_leading_dash by (rule rev_subsetD)
  then have "CHR ''_'' \<in> set (map slug_char l)"
    using set_squeeze_dashes by (rule rev_subsetD)
  then obtain c where "slug_char c = CHR ''_''" by auto
  with slug_char_not_underscore show False by simp
qed

lemma join_lines_no_underscore:
  assumes "\<forall>l \<in> set ls. CHR ''_'' \<notin> set l"
  shows "CHR ''_'' \<notin> set (join_lines ls)"
  using assms
  by (induction ls rule: join_lines.induct) (simp_all add: newline_def)

lemma set_command_subst: "set (command_subst s) \<subseteq> set s"
proof -
  have "set (dropWhile (\<lambda>c. c = newline) (rev s)) \<subseteq> set (rev s)"
    by (auto dest: set_dropWhileD)
  then show ?thesis by (simp add: command_subst_def)
qed

lemma SLUG_no_underscore: "CHR ''_'' \<notin> set (SLUG b)"
proof -
  let ?ls = "map slug_line (split_lines (tr_lower (echo b)))"
  have "\<forall>l \<in> set ?ls. CHR ''_'' \<notin> set l"
    using slug_line_no_underscore by auto
  then have "CHR ''_'' \<notin> set (join_lines ?ls)"
    by (rule join_lines_no_underscore)
  then have "CHR ''_'' \<notin> set (command_subst (join_lines ?ls))"
    using set_command_subst by (rule contra_subsetD [rotated])
  then show ?thesis
    by (simp add: SLUG_def Let_def)
qed

lemma asset_names_clean: "clean_value (LOGO_FILE b)" "clean_value (HERO_FILE b)"
proof -
  have "CHR ''_'' \<notin> set (LOGO_FILE b)" "CHR ''.'' \<in> set (LOGO_FILE b)"
    "CHR ''_'' \<notin> set (HERO_FILE b)" "CHR ''.'' \<in> set (HERO_FILE b)"
    using SLUG_no_underscore [of b] by (simp_all add: LOGO_FILE_def HERO_FILE_def)
  then show "clean_value (LOGO_FILE b)" "clean_value (HERO_FILE b)"
    using letters_not_in_placeholders(1) by (auto intro: clean_value_by_letter)
qed

lemma hero_copy_clean:
  assumes "CHR ''_'' \<notin> set brand" and "CHR ''_'' \<notin> set topic"
  shows "clean_value (brand @ '': practical insights about '' @ topic)"
    and "clean_value (''Actionable guides and frameworks for '' @ topic @ ''.'')"
proof -
  have "CHR ''_'' \<notin> set (brand @ '': practical insights about '' @ topic)"
    "CHR '':'' \<in> set (brand @ '': practical insights about '' @ topic)"
    using assms by simp_all
  then show "clean_value (brand @ '': practical insights about '' @ topic)"
    using letters_not_in_placeholders(2) by (rule clean_value_by_letter)
  have "CHR ''_'' \<notin> set (''Actionable guides and frameworks for '' @ topic @ ''.'')"
    "CHR ''.'' \<in> set (''Actionable guides and frameworks for '' @ topic @ ''.'')"
    using assms by simp_all
  then show "clean_value (''Actionable guides and frameworks for '' @ topic @ ''.'')"
    using letters_not_in_placeholders(1) by (rule clean_value_by_letter)
qed

text \<open>With clean values no placeholder is left in a text after the pass.\<close>

lemma substitute_text_no_placeholder:
  assumes "clean_value (BRAND x)" and "clean_value (DOMAIN x)"
    and "CHR ''_'' \<notin> set (TOPIC x)" and "clean_value (SPEED x)"
    and "clean_value (SUBSCRIBE_EMAIL x)" and "t \<in> set placeholders"
  shows "\<not> sublist t (substitute_text (export_env x) s)"
proof -
  let ?e = "export_env x"
  note no = clean_value_no_overlap [OF _ assms(6)]
  have b: "CHR ''_'' \<notin> set (BRAND x)" using assms(1) by (simp add: clean_value_def)
  note h = no [OF hero_copy_clean(1) [OF b assms(3)]] no [OF hero_copy_clean(2) [OF b assms(3)]]
  have "list_all (\<lambda>(k, v). k \<noteq> [] \<and> \<not> overlap t v) (repl ?e)"
    unfolding repl_def export_env_def Let_def
    using h by (simp add: no assms(1,2,4,5) palette_clean asset_names_clean)
  moreover have "t \<in> fst ` set (repl ?e)"
    using assms(6) unfolding repl_keys [of ?e, symmetric] by simp
  ultimately have 1: "\<not> sublist t (replace_all (repl ?e) (universal_newlines (utf8_ignore s)))"
    by (intro replace_all_removes) simp_all
  have d: "\<not> overlap t (INIT_DOMAIN ?e)"
    using no [OF assms(2)] by (simp add: export_env_fields)
  have 2: "\<not> sublist t (str_replace ''web.myugc.studio'' (INIT_DOMAIN ?e)
              (replace_all (repl ?e) (universal_newlines (utf8_ignore s))))"
  proof
    assume "sublist t (str_replace ''web.myugc.studio'' (INIT_DOMAIN ?e)
              (replace_all (repl ?e) (universal_newlines (utf8_ignore s))))"
    then have "sublist t (replace_all (repl ?e) (universal_newlines (utf8_ignore s))) \<or> overlap t (INIT_DOMAIN ?e)"
      by (intro str_replace_sublist) simp_all
    with 1 d show False by simp
  qed
  show ?thesis
  proof
    assume "sublist t (substitute_text ?e s)"
    then have "sublist t (str_replace ''web.myugc.studio'' (INIT_DOMAIN ?e)
              (replace_all (repl ?e) (universal_newlines (utf8_ignore s)))) \<or> overlap t (INIT_DOMAIN ?e)"
      unfolding substitute_text_def by (intro str_replace_sublist) simp_all
    with 2 d show False by simp
  qed
qed

text \<open>
  C4 (as amended). When the brand, the domain, the speed and the subscribe email have
  no underscore and are not a part of a placeholder (in particular are not empty), and
  the topic has no underscore, then after the Page Materializer no HTML file contains a
  placeholder.
\<close>

theorem C4_no_placeholder_left:
  assumes "clean_value (BRAND x)" and "clean_value (DOMAIN x)"
    and "CHR ''_'' \<notin> set (TOPIC x)" and "clean_value (SPEED x)"
    and "clean_value (SUBSCRIBE_EMAIL x)"
    and "is_html p"
    and "files (page_materializer (export_env x) home blog st) p = Some html"
    and "t \<in> set placeholders"
  shows "\<not> sublist t html"
proof -
  from assms(6,7) obtain s where "html = substitute_text (export_env x) s"
    by (auto simp: page_materializer_def substitute_def)
  then show ?thesis
    using substitute_text_no_placeholder [OF assms(1,2,3,4,5,8)] by simp
qed

theorem C4_witness:
  \<open>clean_value (BRAND example_opts) \<and> clean_value (DOMAIN example_opts)
   \<and> CHR ''_'' \<notin> set (TOPIC example_opts) \<and> clean_value (SPEED example_opts)
   \<and> clean_value (SUBSCRIBE_EMAIL example_opts)
   \<and> is_html ''index.html''
   \<and> files (page_materializer (export_env example_opts) shell_home shell_blog empty_site)
        ''index.html''
       = Some ''<title>Example Co</title><h1>Example Co: practical insights about wine</h1><a href="mailto:info@example.com">mail</a>''
   \<and> ''__HERO_TITLE__'' \<in> set placeholders
   \<and> \<not> sublist ''__HERO_TITLE__''
        ''<title>Example Co</title><h1>Example Co: practical insights about wine</h1><a href="mailto:info@example.com">mail</a>''\<close>
proof -
  have c: "clean_value (BRAND example_opts)" "clean_value (DOMAIN example_opts)"
    "CHR ''_'' \<notin> set (TOPIC example_opts)" "clean_value (SPEED example_opts)"
    "clean_value (SUBSCRIBE_EMAIL example_opts)"
    by code_simp+
  have h: "is_html ''index.html''"
    by code_simp
  have f: \<open>files (page_materializer (export_env example_opts) shell_home shell_blog empty_site)
        ''index.html''
       = Some ''<title>Example Co</title><h1>Example Co: practical insights about wine</h1><a href="mailto:info@example.com">mail</a>''\<close>
    by code_simp
  have t: "''__HERO_TITLE__'' \<in> set placeholders"
    by (simp add: placeholders_def)
  note n = C4_no_placeholder_left [OF c h f t]
  from c h f t n show ?thesis
    by (intro conjI)
qed

text \<open>
  C4 as stated fails: with the topic \<open>__DOMAIN__\<close> the hero title is substituted after
  the pass for \<open>__DOMAIN__\<close>, and the home page of the completed run contains that
  placeholder.
\<close>

theorem C4_counterexample:
  \<open>(case init_blog no_credentials underscore_topic_args shell_site of
      Completed st' \<Rightarrow> files st' ''index.html''
    | Aborted err st' \<Rightarrow> None
    | OutsideModel \<Rightarrow> None)
   = Some ''<title>Example Co</title><h1>Example Co: practical insights about __DOMAIN__</h1><a href="mailto:info@example.com">mail</a>''
   \<and> sublist ''__DOMAIN__''
        ''<title>Example Co</title><h1>Example Co: practical insights about __DOMAIN__</h1><a href="mailto:info@example.com">mail</a>''\<close>
  by code_simp

subsection \<open>The HTML files of a completed run\<close>

lemma universal_newlines_id: "CHR 0x0D \<notin> set s \<Longrightarrow> universal_newlines s = s"
  by (induction s rule: universal_newlines.induct) auto

lemma html_not_png: "is_html p \<Longrightarrow> p \<noteq> a @ ''.png''"
proof
  assume h: "is_html p" and e: "p = a @ ''.png''"
  from h obtain q where "p = q @ ''.html''"
    unfolding is_html_def suffix_def ..
  then have "last p = CHR ''l''" by simp
  moreover from e have "last p = CHR ''g''" by simp
  ultimately show False by simp
qed

lemma html_not_asset:
  assumes "is_html p"
  shows "p \<noteq> LOGO_FILE b" "p \<noteq> HERO_FILE b" "p \<noteq> ''logo.png''" "p \<noteq> ''hero_ai.jpg''"
proof -
  have "p \<noteq> (''logo-'' @ SLUG b) @ ''.png''"
    using assms by (rule html_not_png)
  then show "p \<noteq> LOGO_FILE b" by (simp add: LOGO_FILE_def)
  have "p \<noteq> (''hero-'' @ SLUG b) @ ''.png''"
    using assms by (rule html_not_png)
  then show "p \<noteq> HERO_FILE b" by (simp add: HERO_FILE_def)
  have "p \<noteq> ''logo'' @ ''.png''"
    using assms by (rule html_not_png)
  then show "p \<noteq> ''logo.png''" by simp
  show "p \<noteq> ''hero_ai.jpg''"
  proof
    assume e: "p = ''hero_ai.jpg''"
    from assms obtain q where "p = q @ ''.html''"
      unfolding is_html_def suffix_def ..
    then have "last p = CHR ''l''" by simp
    with e show False by simp
  qed
qed

lemma files_materialize:
  "files (materialize home blog st) p =
     (if p \<in> set blog_pages then Some (universal_newlines blog)
      else if p = ''index.html'' then Some (universal_newlines home)
      else files st p)"
  by (simp add: materialize_def blog_pages_def write_file_def)

lemma files_write_policy_pages_other:
  assumes "p \<notin> {''policy/privacy/index.html'', ''policy/terms/index.html'',
                 ''policy/refund/index.html''}"
  shows "files (write_policy_pages e st) p = files st p"
  using assms by (simp add: write_policy_pages_def pages_def write_file_def)

text \<open>An HTML file other than the policy pages and the blog post template ends as the
  substitution pass leaves it.\<close>

lemma after_run_html:
  assumes "is_html p"
    and "p \<notin> {''policy/privacy/index.html'', ''policy/terms/index.html'',
                 ''policy/refund/index.html''}"
    and "p \<noteq> ''blog/template.html''"
  shows "files (after_run w x home blog st) p =
     map_option (substitute_text (export_env x))
       (if p \<in> set blog_pages then Some (universal_newlines blog)
        else if p = ''index.html'' then Some (universal_newlines home)
        else map_option (bootstrap_file w (DOMAIN x) (BRAND x) p) (files st p))"
proof -
  note a = html_not_asset [OF assms(1)]
  have "files (after_run w x home blog st) p
          = files (page_materializer (export_env x) home blog
                    (provision_assets w (export_env x)
                       (bootstrapped w (DOMAIN x) (BRAND x) st))) p"
    using assms(2,3) a(1) [of "BRAND x"] a(3)
    by (simp add: after_run_def files_print files_transparent_logo files_patch
        files_write_policy_pages_other)
  also have "\<dots> = map_option (substitute_text (export_env x))
       (files (materialize home blog
                 (provision_assets w (export_env x)
                    (bootstrapped w (DOMAIN x) (BRAND x) st))) p)"
    using assms(1) by (simp add: page_materializer_def substitute_def)
  also have "files (provision_assets w (export_env x)
                    (bootstrapped w (DOMAIN x) (BRAND x) st)) p
             = map_option (bootstrap_file w (DOMAIN x) (BRAND x) p) (files st p)"
    using a by (simp add: provision_assets_frame export_env_fields files_bootstrapped)
  then have "files (materialize home blog
                 (provision_assets w (export_env x)
                    (bootstrapped w (DOMAIN x) (BRAND x) st))) p
      = (if p \<in> set blog_pages then Some (universal_newlines blog)
        else if p = ''index.html'' then Some (universal_newlines home)
        else map_option (bootstrap_file w (DOMAIN x) (BRAND x) p) (files st p))"
    by (simp only: files_materialize)
  finally show ?thesis .
qed

lemma is_html_pages:
  "is_html ''index.html''" "\<forall>p\<in>set blog_pages. is_html p"
  "is_html home_shell" "is_html blog_shell"
  by code_simp+

lemma after_run_index:
  "files (after_run w x home blog st) ''index.html''
     = Some (substitute_text (export_env x) (universal_newlines home))"
proof -
  have "files (after_run w x home blog st) ''index.html'' =
     map_option (substitute_text (export_env x))
       (if ''index.html'' \<in> set blog_pages then Some (universal_newlines blog)
        else if ''index.html'' = ''index.html'' then Some (universal_newlines home)
        else map_option (bootstrap_file w (DOMAIN x) (BRAND x) ''index.html'')
               (files st ''index.html''))"
    by (rule after_run_html) (simp_all add: is_html_pages)
  then show ?thesis by (simp add: blog_pages_def)
qed

lemma after_run_blog_pages:
  assumes "p \<in> set blog_pages"
  shows "files (after_run w x home blog st) p
     = Some (substitute_text (export_env x) (universal_newlines blog))"
proof -
  have "is_html p" using assms is_html_pages(2) by (rule bspec [rotated])
  moreover have "p \<notin> {''policy/privacy/index.html'', ''policy/terms/index.html'',
                 ''policy/refund/index.html''}" "p \<noteq> ''blog/template.html''"
    using assms by (auto simp: blog_pages_def)
  ultimately have "files (after_run w x home blog st) p =
     map_option (substitute_text (export_env x))
       (if p \<in> set blog_pages then Some (universal_newlines blog)
        else if p = ''index.html'' then Some (universal_newlines home)
        else map_option (bootstrap_file w (DOMAIN x) (BRAND x) p) (files st p))"
    by (rule after_run_html)
  with assms show ?thesis by simp
qed

text \<open>A text without a legacy string is not listed, so the bootstrap leaves it as it is
  (\<^verbatim>\<open>sitemap.xml\<close> apart, where the date is stamped).\<close>

lemma bootstrap_file_id:
  assumes "\<not> grep_legacy s" and "p \<noteq> ''sitemap.xml''"
  shows "bootstrap_file w domain brand p s = s"
  using assms by (simp add: bootstrap_file_def listed_def)

subsection \<open>Subscribe email\<close>
















lemma legacy_hosts_absent:
  assumes "\<not> sublist ''myugc.studio'' s"
  shows "str_replace ''myugc.studio'' d (str_replace ''web.myugc.studio'' d s) = s"
proof -
  have "sublist ''myugc.studio'' ''web.myugc.studio''"
    by code_simp
  then have "\<not> sublist ''web.myugc.studio'' s"
    using assms sublist_trans by (intro notI) (elim notE)
  then have "str_replace ''web.myugc.studio'' d s = s"
    by (intro str_replace_absent) simp_all
  moreover have "str_replace ''myugc.studio'' d s = s"
    using assms by (intro str_replace_absent) simp_all
  ultimately show ?thesis by simp
qed




subsection \<open>Valid UTF-8 and line endings\<close>

lemma length_utf8_ignore: "length (utf8_ignore s) \<le> length s"
proof (induction s rule: utf8_ignore.induct)
  case 1
  show ?case by simp
next
  case (2 c s)
  show ?case
  proof (cases "byte c < 128")
    case True
    with 2(1) show ?thesis by simp
  next
    case False
    show ?thesis
    proof (cases "lead c")
      case None
      with False 2(2) show ?thesis by simp
    next
      case (Some t)
      obtain k lo hi where t: "t = (k, lo, hi)" by (cases t)
      show ?thesis
      proof (cases "tail_scan k lo hi s")
        case Whole
        from 2(3) [OF False Some t [symmetric] refl Whole]
        have "length (utf8_ignore (drop k s)) \<le> length s - k" by simp
        with False Some t Whole show ?thesis by simp
      next
        case Short
        with False Some t show ?thesis by simp
      next
        case (Broken j)
        from 2(4) [OF False Some t [symmetric] refl Broken]
        have "length (utf8_ignore (drop j s)) \<le> length s - j" by simp
        with False Some t Broken show ?thesis by simp
      qed
    qed
  qed
qed

lemma tail_scan_Whole:
  assumes "tail_scan k lo hi s = Whole" and "128 \<le> lo"
  shows "k \<le> length s \<and> (\<forall>b\<in>set (take k s). 128 \<le> byte b)"
  using assms
proof (induction k arbitrary: lo hi s)
  case 0
  show ?case by simp
next
  case (Suc k)
  from Suc(2) obtain b s' where s: "s = b # s'"
    by (cases s) simp_all
  from Suc(2) s have r: "lo \<le> byte b \<and> byte b \<le> hi"
    by (simp split: if_splits)
  with Suc(2) s have "tail_scan k 128 191 s' = Whole"
    by (simp split: scan.splits)
  then have "k \<le> length s' \<and> (\<forall>b\<in>set (take k s'). 128 \<le> byte b)"
    by (rule Suc(1)) simp
  with r Suc(3) s show ?case by simp
qed

lemma tail_scan_take:
  assumes "tail_scan k lo hi s = Whole"
  shows "tail_scan k lo hi (take k s @ r) = Whole"
  using assms
proof (induction k arbitrary: lo hi s)
  case 0
  show ?case by simp
next
  case (Suc k)
  from Suc(2) obtain b s' where s: "s = b # s'"
    by (cases s) simp_all
  from Suc(2) s have r: "lo \<le> byte b \<and> byte b \<le> hi"
    by (simp split: if_splits)
  with Suc(2) s have "tail_scan k 128 191 s' = Whole"
    by (simp split: scan.splits)
  then have "tail_scan k 128 191 (take k s' @ r) = Whole"
    by (rule Suc(1))
  with r s show ?case by simp
qed

lemma lead_lower: "lead c = Some (k, lo, hi) \<Longrightarrow> 128 \<le> lo"
  by (simp add: lead_def Let_def split: if_splits)

lemma utf8_Nil: "utf8 []"
  by (simp add: utf8_def)

lemma utf8_ascii: "byte c < 128 \<Longrightarrow> utf8 (c # s) \<longleftrightarrow> utf8 s"
  by (simp add: utf8_def)

text \<open>A valid text that begins with a byte outside ASCII begins with a whole character,
  and the rest is valid.\<close>

lemma utf8_lead:
  assumes "utf8 (c # s)" and "\<not> byte c < 128"
  shows "\<exists>k lo hi. lead c = Some (k, lo, hi) \<and> tail_scan k lo hi s = Whole
           \<and> utf8 (drop k s)"
proof (cases "lead c")
  case None
  with assms have "utf8_ignore s = c # s" by (simp add: utf8_def)
  then have "length (utf8_ignore s) = Suc (length s)" by simp
  with length_utf8_ignore [of s] show ?thesis by simp
next
  case (Some t)
  obtain k lo hi where t: "t = (k, lo, hi)" by (cases t)
  show ?thesis
  proof (cases "tail_scan k lo hi s")
    case Whole
    with assms Some t have "take k s @ utf8_ignore (drop k s) = s"
      by (simp add: utf8_def)
    then have "take k s @ utf8_ignore (drop k s) = take k s @ drop k s"
      by simp
    then have "utf8 (drop k s)"
      unfolding utf8_def by (simp only: same_append_eq)
    with Some t Whole show ?thesis by simp
  next
    case Short
    with assms Some t show ?thesis by (simp add: utf8_def)
  next
    case (Broken j)
    with assms Some t have "utf8_ignore (drop j s) = c # s" by (simp add: utf8_def)
    then have "length (utf8_ignore (drop j s)) = Suc (length s)" by simp
    with length_utf8_ignore [of "drop j s"] show ?thesis by simp
  qed
qed

lemma utf8_leadI:
  assumes "\<not> byte c < 128" and "lead c = Some (k, lo, hi)"
    and "tail_scan k lo hi s = Whole" and "utf8 (drop k s)"
  shows "utf8 (c # s)"
proof -
  from assms(4) have "utf8_ignore (drop k s) = drop k s"
    by (simp only: utf8_def)
  with assms(1,2,3) show ?thesis
    by (simp add: utf8_def)
qed

lemma universal_newlines_skip:
  assumes "CHR 0x0D \<notin> set t"
  shows "universal_newlines (t @ r) = t @ universal_newlines r"
  using assms
proof (induction t)
  case Nil
  show ?case by simp
next
  case (Cons c t)
  then have c: "c \<noteq> CHR 0x0D" and i: "universal_newlines (t @ r) = t @ universal_newlines r"
    by auto
  show ?case
  proof (cases "t @ r")
    case Nil
    with c show ?thesis by simp
  next
    case (Cons d u)
    have "universal_newlines (c # d # u) = c # universal_newlines (d # u)"
      using c by simp
    with Cons i show ?thesis by simp
  qed
qed

lemma byte_cr: "byte (CHR 0x0D) = 13" "byte newline = 10"
  by (simp_all add: byte_def newline_def)

text \<open>Reading the line endings keeps a valid text valid.\<close>

lemma utf8_universal_newlines:
  "utf8 s \<Longrightarrow> utf8 (universal_newlines s)"
proof (induction s rule: length_induct)
  case (1 s)
  note IH = 1(1) [rule_format]
  show ?case
  proof (cases s)
    case Nil
    then show ?thesis by (simp add: utf8_Nil)
  next
    case (Cons c s')
    show ?thesis
    proof (cases "byte c < 128")
      case True
      with 1(2) Cons have v: "utf8 s'" by (simp add: utf8_ascii)
      show ?thesis
      proof (cases "c = CHR 0x0D")
        case False
        then have "universal_newlines ([c] @ s') = [c] @ universal_newlines s'"
          by (intro universal_newlines_skip) simp
        moreover have "utf8 (universal_newlines s')"
          using v by (intro IH) (simp_all add: Cons)
        ultimately show ?thesis
          using True by (simp add: Cons utf8_ascii)
      next
        case cr: True
        show ?thesis
        proof (cases s')
          case Nil
          then show ?thesis
            by (simp add: Cons cr utf8_ascii byte_cr utf8_Nil)
        next
          case s': (Cons d s'')
          show ?thesis
          proof (cases "d = newline")
            case True
            with v s' have "utf8 s''" by (simp add: utf8_ascii byte_cr)
            then have "utf8 (universal_newlines s'')"
              by (intro IH) (simp_all add: Cons s')
            then show ?thesis
              by (simp add: Cons cr s' True utf8_ascii byte_cr)
          next
            case False
            have "utf8 (universal_newlines (d # s''))"
              using v s' by (intro IH) (simp_all add: Cons)
            with False show ?thesis
              by (simp add: Cons cr s' utf8_ascii byte_cr)
          qed
        qed
      qed
    next
      case False
      from utf8_lead [OF 1(2) [unfolded Cons] False] obtain k lo hi where
        l: "lead c = Some (k, lo, hi)" and w: "tail_scan k lo hi s' = Whole"
        and v: "utf8 (drop k s')"
        by (elim exE conjE)
      from tail_scan_Whole [OF w lead_lower [OF l]]
      have k: "k \<le> length s'" and b: "\<forall>b\<in>set (take k s'). 128 \<le> byte b"
        by simp_all
      have "CHR 0x0D \<notin> set (c # take k s')"
      proof
        assume "CHR 0x0D \<in> set (c # take k s')"
        then have "CHR 0x0D = c \<or> CHR 0x0D \<in> set (take k s')" by simp
        then show False
        proof
          assume "CHR 0x0D = c"
          then have "byte c = 13" by (simp only: byte_cr [symmetric])
          with False show False by simp
        next
          assume "CHR 0x0D \<in> set (take k s')"
          with b have "128 \<le> byte (CHR 0x0D)" by (rule bspec)
          then show False by (simp add: byte_cr)
        qed
      qed
      then have "universal_newlines ((c # take k s') @ drop k s')
                   = (c # take k s') @ universal_newlines (drop k s')"
        by (rule universal_newlines_skip)
      then have u: "universal_newlines s
                      = c # (take k s' @ universal_newlines (drop k s'))"
        by (simp add: Cons)
      have "utf8 (universal_newlines (drop k s'))"
        using v by (intro IH) (simp_all add: Cons)
      moreover have "drop k (take k s' @ universal_newlines (drop k s'))
                       = universal_newlines (drop k s')"
        using k by simp
      ultimately have "utf8 (drop k (take k s' @ universal_newlines (drop k s')))"
        by simp
      with False l tail_scan_take [OF w]
      have "utf8 (c # (take k s' @ universal_newlines (drop k s')))"
        by (rule utf8_leadI)
      then show ?thesis by (simp only: u)
    qed
  qed
qed

lemma universal_newlines_no_cr: "CHR 0x0D \<notin> set (universal_newlines s)"
  by (induction s rule: universal_newlines.induct) (simp_all add: newline_def)

lemma universal_newlines_idem:
  "universal_newlines (universal_newlines s) = universal_newlines s"
  using universal_newlines_no_cr by (rule universal_newlines_id)

text \<open>So the pass gives the same text for a valid text and for the text read from it.\<close>

lemma substitute_text_universal_newlines:
  assumes "utf8 s"
  shows "substitute_text e (universal_newlines s) = substitute_text e s"
proof -
  from assms have "utf8 (universal_newlines s)" by (rule utf8_universal_newlines)
  then have "utf8_ignore (universal_newlines s) = universal_newlines s"
    by (simp only: utf8_def)
  moreover from assms have "utf8_ignore s = s" by (simp only: utf8_def)
  ultimately show ?thesis
    by (simp only: substitute_text_def universal_newlines_idem)
qed

subsection \<open>A second run\<close>

text \<open>The bootstrap and the pass leave a settled text as it is.\<close>

lemma html_not_sitemap: "is_html p \<Longrightarrow> p \<noteq> ''sitemap.xml''"
proof
  assume h: "is_html p" and e: "p = ''sitemap.xml''"
  have "\<not> is_html ''sitemap.xml''" by code_simp
  moreover from h have "is_html ''sitemap.xml''" unfolding e .
  ultimately show False ..
qed

lemma settled_bootstrap_file:
  assumes "settled s" and "is_html p"
  shows "bootstrap_file w domain brand p s = s"
proof -
  from assms(1) have "\<not> grep_legacy s" by (simp add: settled_def)
  moreover from assms(2) have "p \<noteq> ''sitemap.xml''" by (rule html_not_sitemap)
  ultimately show ?thesis by (rule bootstrap_file_id)
qed

lemma settled_substitute_text:
  assumes "settled s"
  shows "substitute_text e s = s"
proof -
  from assms have u: "utf8_ignore s = s"
    by (simp add: settled_def utf8_def)
  from assms have "CHR 0x0D \<notin> set s"
    by (simp add: settled_def)
  then have n: "universal_newlines s = s"
    by (rule universal_newlines_id)
  from assms have t: "list_all (\<lambda>t. \<not> sublist t s) placeholders"
    by (simp add: settled_def)
  have "\<forall>kv\<in>set (repl e). fst kv \<noteq> [] \<and> \<not> sublist (fst kv) s"
  proof
    fix kv assume "kv \<in> set (repl e)"
    then have "fst kv \<in> set (map fst (repl e))" by simp
    then have m: "fst kv \<in> set placeholders" by (simp only: repl_keys)
    then have "fst kv \<noteq> [] \<and> hd (fst kv) = CHR ''_'' \<and> last (fst kv) = CHR ''_''"
      by (rule placeholder_shape)
    then have "fst kv \<noteq> []" ..
    moreover from t m have "\<not> sublist (fst kv) s"
      unfolding list_all_iff by (rule bspec)
    ultimately show "fst kv \<noteq> [] \<and> \<not> sublist (fst kv) s" ..
  qed
  then have "list_all (\<lambda>(k, v). k \<noteq> [] \<and> \<not> sublist k s) (repl e)"
    unfolding list_all_iff by (simp add: split_beta)
  then have r: "replace_all (repl e) s = s"
    by (rule replace_all_absent)
  from assms have "\<not> grep_legacy s" by (simp add: settled_def)
  then have "\<not> sublist ''myugc.studio'' s"
    unfolding grep_legacy_def by (intro notI) (elim notE, rule disjI1)
  then have l: "str_replace ''myugc.studio'' (INIT_DOMAIN e)
                  (str_replace ''web.myugc.studio'' (INIT_DOMAIN e) s) = s"
    by (rule legacy_hosts_absent)
  show ?thesis
    by (simp only: substitute_text_def u n r l)
qed

text \<open>The blog post template ends as the palette patch leaves what the pass gave.\<close>

lemma after_run_template:
  "files (after_run w x home blog st) ''blog/template.html'' =
     map_option
       (\<lambda>s. palette_rewrite w (export_env x)
               (universal_newlines (utf8_ignore (substitute_text (export_env x)
                  (bootstrap_file w (DOMAIN x) (BRAND x) ''blog/template.html'' s)))))
       (files st ''blog/template.html'')"
proof -
  let ?p = "''blog/template.html''"
  let ?e = "export_env x"
  let ?m = "page_materializer ?e home blog
              (provision_assets w ?e (bootstrapped w (DOMAIN x) (BRAND x) st))"
  have h: "is_html ?p" by code_simp
  note a = html_not_asset [OF h]
  have "files (after_run w x home blog st) ?p
          = files (patch_blog_template_palette w ?e ?p (write_policy_pages ?e ?m)) ?p"
    using a(1) [of "BRAND x"] a(3)
    by (simp add: after_run_def files_print files_transparent_logo)
  also have "\<dots> = map_option (\<lambda>s. palette_rewrite w ?e (universal_newlines (utf8_ignore s)))
                      (files (write_policy_pages ?e ?m) ?p)"
    by (simp add: patch_blog_template_palette_def write_file_def split: option.splits)
  also have "files (write_policy_pages ?e ?m) ?p = files ?m ?p"
    by (rule files_write_policy_pages_other) simp
  also have "files ?m ?p
      = map_option (substitute_text ?e)
          (files (materialize home blog
                    (provision_assets w ?e (bootstrapped w (DOMAIN x) (BRAND x) st))) ?p)"
    using h by (simp add: page_materializer_def substitute_def)
  also have "files (materialize home blog
                    (provision_assets w ?e (bootstrapped w (DOMAIN x) (BRAND x) st))) ?p
      = files (provision_assets w ?e (bootstrapped w (DOMAIN x) (BRAND x) st)) ?p"
    by (simp add: files_materialize blog_pages_def)
  also have "\<dots> = map_option (bootstrap_file w (DOMAIN x) (BRAND x) ?p) (files st ?p)"
    using a by (simp add: provision_assets_frame export_env_fields files_bootstrapped)
  finally show ?thesis
    by (simp add: option.map_comp comp_def)
qed

text \<open>A run that finds settled shells writes them out as the pages, and leaves every
  settled HTML file as it is.\<close>

lemma after_run_settled:
  assumes "settled h" and "settled g"
  shows "files (after_run w x h g st) ''index.html'' = Some h"
    and "p \<in> set blog_pages \<Longrightarrow> files (after_run w x h g st) p = Some g"
proof -
  from assms have n: "universal_newlines h = h" "universal_newlines g = g"
    by (simp_all add: settled_def universal_newlines_id)
  show "files (after_run w x h g st) ''index.html'' = Some h"
    by (simp only: after_run_index n settled_substitute_text [OF assms(1)])
  show "files (after_run w x h g st) p = Some g" if "p \<in> set blog_pages"
    by (simp only: after_run_blog_pages [OF that] n settled_substitute_text [OF assms(2)])
qed

lemma after_run_settled_file:
  assumes "is_html p" and "files st p = Some c" and "settled c"
    and "p = ''blog/template.html'' \<longrightarrow> palette_rewrite w (export_env x) c = c"
    and "p \<notin> {''policy/privacy/index.html'', ''policy/terms/index.html'',
                 ''policy/refund/index.html''}"
    and "p \<notin> set blog_pages" and "p \<noteq> ''index.html''"
  shows "files (after_run w x home blog st) p = Some c"
proof (cases "p = ''blog/template.html''")
  case True
  from assms(3) have u: "utf8_ignore c = c" "universal_newlines c = c"
    by (simp_all add: settled_def utf8_def universal_newlines_id)
  from True assms(4) have "palette_rewrite w (export_env x) c = c" by simp
  with assms(2) show ?thesis
    unfolding True after_run_template
    by (simp add: settled_bootstrap_file [OF assms(3) assms(1) [unfolded True]]
        settled_substitute_text [OF assms(3)] u)
next
  case False
  from after_run_html [OF assms(1,5) False] assms(2,6,7)
  show ?thesis
    by (simp add: settled_bootstrap_file [OF assms(3,1)] settled_substitute_text [OF assms(3)])
qed

end
